theory Spec2Isabelle
  imports Main "HOL-Library.Word" "HOL-Library.Signed_Division"
begin

section \<open>Data model of the light engine\<close>

text \<open>
  The engine is the C++ class \<open>LightEngine\<close> (LightEngine.h, LightEngine.cpp). Its
  private members become the fields of one record that every method takes and returns.
  \<^item> \<open>uint8_t\<close> is \<open>8 word\<close>, \<open>uint32_t\<close> is \<open>32 word\<close>; a \<open>uint8_t\<close> promoted to
    \<open>int\<close> is read with \<open>uint\<close>, an \<open>int\<close> stored into a \<open>uint8_t\<close> is
    \<open>word_of_int\<close> (reduction modulo 256).
  \<^item> \<open>int\<close> members are HOL integers. Every value the handlers store is at most 510,
    so none of the products formed while rendering comes near the limits of \<open>int\<close>;
    overflow of \<open>int\<close> is not modelled.
  \<^item> C++ \<open>/\<close> and \<open>%\<close> on \<open>int\<close> truncate towards zero: \<open>sdiv\<close> and \<open>smod\<close>.
  \<^item> The two heap buffers \<open>leds\<close> and \<open>background\<close> are lists, their length being
    the number of elements allocated.
  The members \<open>h\<close>, \<open>s\<close>, \<open>v\<close> of \<open>HSVColor\<close> are named \<open>hsv_h\<close>, \<open>hsv_s\<close>,
  \<open>hsv_v\<close>, and the parameter \<open>value\<close> is named \<open>val\<close>.
\<close>

record HSVColor =
  hsv_h :: "8 word"
  hsv_s :: "8 word"
  hsv_v :: "8 word"

record EngineState =
  numLeds :: int
  leds :: "HSVColor list"
  background :: "HSVColor list"
  ffHue :: int
  ffSat :: int
  ffBright :: int
  ffLedStart :: int
  ffLedLength :: int
  ffMode :: int
  lines :: int
  cAmp :: int
  bgMode :: int
  pan :: int
  bgHue :: int
  bgSat :: int
  bgBright :: int
  bgLedStart :: int
  bgLedLength :: int
  activeNotes :: "8 word list"
  currentNote :: "8 word list"
  lineOffset :: int
  frameCounter :: "32 word"

text \<open>
  What the C++ leaves undefined and the model makes a value: a division by zero, an
  array access outside the allocated elements, an allocation or copy of negative
  length, and a loop that never ends.
\<close>

datatype fault = DivisionByZero | OutOfBounds | BadArrayLength | Diverges

subsection \<open>Lookup tables\<close>

text \<open>
  The entries are \<open>int\<close> and \<open>uint8_t\<close> constants, all below 256; they are read into
  \<open>int\<close> variables, so the tables are lists of integers.
\<close>

definition COLOR_PHASE :: "int list" where
  "COLOR_PHASE =
    [10, 20, 29, 38, 47, 56, 63, 71, 77, 83, 88, 92, 96, 98, 100, 100,
     100, 98, 96, 92, 88, 83, 77, 71, 63, 56, 47, 38, 29, 20, 10, 0,
     -10, -20, -29, -38, -47, -56, -63, -71, -77, -83, -88, -92, -96, -98, -100, -100,
     -100, -98, -96, -92, -88, -83, -77, -71, -63, -56, -47, -38, -29, -20, -10, 0]"

definition TOP_BOTTOM_MIRROR_MAP :: "int list" where
  "TOP_BOTTOM_MIRROR_MAP =
    [23, 22, 21, 20, 19, 18, 17, 16, 15, 14, 13, 12, 11, 10, 9, 8, 7, 6, 5, 4, 3, 2, 1, 0,
     95, 94, 93, 92, 91, 90, 89, 88, 87, 86, 85, 84, 83, 82, 81, 80, 79, 78, 77, 76, 75, 74, 73, 72]"

definition CHANNEL_TO_LED :: "int list list" where
  "CHANNEL_TO_LED =
    [[0, 0, 0, 0, 0, 0],
     [19, 20, 21, 22, 23, 24],
     [29, 30, 31, 32, 33, 34],
     [13, 14, 15, 16, 17, 18],
     [35, 36, 37, 38, 39, 40],
     [7, 8, 9, 10, 11, 12],
     [41, 42, 43, 44, 45, 46],
     [1, 2, 3, 4, 5, 6],
     [47, 48, 49, 50, 51, 52],
     [73, 74, 75, 76, 77, 78],
     [83, 84, 85, 86, 87, 88],
     [67, 68, 69, 70, 71, 72],
     [89, 90, 91, 92, 93, 94],
     [61, 62, 63, 64, 65, 66],
     [95, 96, 97, 98, 99, 100],
     [55, 56, 57, 58, 59, 60],
     [101, 102, 103, 104, 105, 106]]"

text \<open>An indexed read of a table: outside the table it is a fault.\<close>

definition table_at :: "'a list \<Rightarrow> int \<Rightarrow> fault + 'a" where
  "table_at t i = (if 0 \<le> i \<and> i < int (length t) then Inr (t ! nat i) else Inl OutOfBounds)"

text \<open>
  \<open>mirror j\<close> is the read \<open>TOP_BOTTOM_MIRROR_MAP[j]\<close>, with \<open>None\<close> where \<open>j\<close> is
  not one of the 48 indices of the table.
\<close>

definition mirror :: "int \<Rightarrow> int option" where
  "mirror j = (if 0 \<le> j \<and> j < 48 then Some (TOP_BOTTOM_MIRROR_MAP ! nat j) else None)"

subsection \<open>Constructor\<close>

definition checkerboard :: "int \<Rightarrow> int \<Rightarrow> HSVColor" where
  "checkerboard bright i =
    (if i smod 2 = 0
     then \<lparr>hsv_h = 80, hsv_s = 200, hsv_v = word_of_int bright\<rparr>
     else \<lparr>hsv_h = 100, hsv_s = 200, hsv_v = word_of_int bright\<rparr>)"

text \<open>The state the constructor body leaves, once both buffers are allocated.\<close>

definition initialState :: "int \<Rightarrow> EngineState" where
  "initialState n =
    \<lparr>numLeds = n,
     leds = map (\<lambda>i. checkerboard 200 (int i)) [0..<nat n],
     background = replicate (nat n) \<lparr>hsv_h = 0, hsv_s = 0, hsv_v = 0\<rparr>,
     ffHue = 0, ffSat = 200, ffBright = 200, ffLedStart = 0, ffLedLength = 0,
     ffMode = 0, lines = 0, cAmp = 0, bgMode = 0, pan = 64,
     bgHue = 0, bgSat = 200, bgBright = 0, bgLedStart = 0, bgLedLength = 0,
     activeNotes = replicate 128 0,
     currentNote = replicate 17 0,
     lineOffset = 0,
     frameCounter = 0\<rparr>"

text \<open>\<open>new HSVColor[numLeds]\<close> throws for a negative length.\<close>

definition LightEngine :: "int \<Rightarrow> fault + EngineState" where
  "LightEngine n = (if n < 0 then Inl BadArrayLength else Inr (initialState n))"

subsection \<open>MIDI event handlers\<close>

definition handleControlChange :: "8 word \<Rightarrow> 8 word \<Rightarrow> 8 word \<Rightarrow> EngineState \<Rightarrow> EngineState" where
  "handleControlChange channel control val st =
    (if control = 1 then st\<lparr>ffHue := uint val * 2\<rparr>
     else if control = 2 then st\<lparr>ffSat := uint val * 2\<rparr>
     else if control = 3 then st\<lparr>ffBright := uint val * 2\<rparr>
     else if control = 4 then st\<lparr>ffLedStart := uint val\<rparr>
     else if control = 5 then st\<lparr>ffLedLength := uint val\<rparr>
     else if control = 6 then st\<lparr>ffMode := uint val\<rparr>
     else if control = 7 then st\<lparr>lines := uint val\<rparr>
     else if control = 8 then st\<lparr>cAmp := uint val\<rparr>
     else if control = 9 then st\<lparr>bgMode := uint val\<rparr>
     else if control = 10 then st\<lparr>pan := uint val\<rparr>
     else if control = 11 then st\<lparr>bgHue := uint val * 2\<rparr>
     else if control = 12 then st\<lparr>bgSat := uint val * 2\<rparr>
     else if control = 13 then st\<lparr>bgBright := uint val * 2\<rparr>
     else if control = 14 then st\<lparr>bgLedStart := uint val\<rparr>
     else if control = 15 then st\<lparr>bgLedLength := uint val\<rparr>
     else st)"

definition handleNoteOn :: "8 word \<Rightarrow> 8 word \<Rightarrow> 8 word \<Rightarrow> EngineState \<Rightarrow> EngineState" where
  "handleNoteOn channel note velocity st =
    (let st1 = (if note < 128
                then st\<lparr>activeNotes := (activeNotes st)[unat note := velocity]\<rparr>
                else st);
         st2 = (if 1 \<le> channel \<and> channel \<le> 16
                then st1\<lparr>currentNote := (currentNote st1)[unat channel := note]\<rparr>
                else st1)
     in if ffMode st2 = 5
        then (let st3 = st2\<lparr>ffLedStart := ffLedStart st2 + 1\<rparr>
              in if ffLedStart st3 \<ge> 127 then st3\<lparr>ffLedStart := 0\<rparr> else st3)
        else st2)"

definition handleNoteOff :: "8 word \<Rightarrow> 8 word \<Rightarrow> 8 word \<Rightarrow> EngineState \<Rightarrow> EngineState" where
  "handleNoteOff channel note velocity st =
    (let st1 = (if note < 128
                then st\<lparr>activeNotes := (activeNotes st)[unat note := 0]\<rparr>
                else st)
     in if 1 \<le> channel \<and> channel \<le> 16
        then (if currentNote st1 ! unat channel = note
              then st1\<lparr>currentNote := (currentNote st1)[unat channel := 0]\<rparr>
              else st1)
        else st1)"

subsection \<open>State access\<close>

definition getCC :: "int \<Rightarrow> EngineState \<Rightarrow> int" where
  "getCC ccNumber st =
    (if ccNumber = 1 then ffHue st sdiv 2
     else if ccNumber = 2 then ffSat st sdiv 2
     else if ccNumber = 3 then ffBright st sdiv 2
     else if ccNumber = 4 then ffLedStart st
     else if ccNumber = 5 then ffLedLength st
     else if ccNumber = 6 then ffMode st
     else if ccNumber = 7 then lines st
     else if ccNumber = 8 then cAmp st
     else if ccNumber = 9 then bgMode st
     else if ccNumber = 10 then pan st
     else if ccNumber = 11 then bgHue st sdiv 2
     else if ccNumber = 12 then bgSat st sdiv 2
     else if ccNumber = 13 then bgBright st sdiv 2
     else if ccNumber = 14 then bgLedStart st
     else if ccNumber = 15 then bgLedLength st
     else 0)"

text \<open>
  \<open>setCC\<close> takes two \<open>int\<close>s and passes them to parameters of type \<open>uint8_t\<close>: the
  call converts both modulo 256.
\<close>

definition setCC :: "int \<Rightarrow> int \<Rightarrow> EngineState \<Rightarrow> EngineState" where
  "setCC ccNumber val st = handleControlChange 0 (word_of_int ccNumber) (word_of_int val) st"

section \<open>Rendering pipeline\<close>

text \<open>
  A \<open>for\<close> loop with unit step visits the values of its counter in order; the list
  \<open>[a..b]\<close> (empty when \<open>b < a\<close>) holds them, and \<open>for_each\<close> runs the body on each,
  stopping at the first fault.
\<close>

definition bindE :: "fault + 'a \<Rightarrow> ('a \<Rightarrow> fault + 'b) \<Rightarrow> fault + 'b" where
  "bindE m f = (case m of Inl e \<Rightarrow> Inl e | Inr x \<Rightarrow> f x)"

fun for_each :: "('a \<Rightarrow> 'st \<Rightarrow> fault + 'st) \<Rightarrow> 'a list \<Rightarrow> 'st \<Rightarrow> fault + 'st" where
  "for_each body [] st = Inr st"
| "for_each body (x # xs) st = bindE (body x st) (for_each body xs)"

definition u8 :: "int \<Rightarrow> 8 word" where
  "u8 k = word_of_int k"

subsection \<open>Utility functions\<close>

text \<open>A store to element \<open>i\<close> of a buffer; outside the allocated elements it is a fault.\<close>

definition store_at :: "HSVColor list \<Rightarrow> int \<Rightarrow> HSVColor \<Rightarrow> fault + HSVColor list" where
  "store_at buf i c =
    (if 0 \<le> i \<and> i < int (length buf) then Inr (buf[nat i := c]) else Inl OutOfBounds)"

definition setLED :: "int \<Rightarrow> 8 word \<Rightarrow> 8 word \<Rightarrow> 8 word \<Rightarrow> EngineState \<Rightarrow> fault + EngineState" where
  "setLED index h s v st =
    (if index \<ge> 0 \<and> index < numLeds st
     then bindE (store_at (leds st) index \<lparr>hsv_h = h, hsv_s = s, hsv_v = v\<rparr>)
            (\<lambda>buf. Inr (st\<lparr>leds := buf\<rparr>))
     else Inr st)"

text \<open>\<open>memcpy(dst, src, n * sizeof(HSVColor))\<close>: the first \<open>n\<close> elements are copied.\<close>

definition memcpy :: "HSVColor list \<Rightarrow> HSVColor list \<Rightarrow> int \<Rightarrow> fault + HSVColor list" where
  "memcpy dst src n =
    (if n < 0 then Inl BadArrayLength
     else if int (length src) < n \<or> int (length dst) < n then Inl OutOfBounds
     else Inr (take (nat n) src @ drop (nat n) dst))"

definition copyBackground :: "EngineState \<Rightarrow> fault + EngineState" where
  "copyBackground st =
    bindE (memcpy (leds st) (background st) (numLeds st)) (\<lambda>buf. Inr (st\<lparr>leds := buf\<rparr>))"

text \<open>The three assignments \<open>background[i].h = h; .s = s; .v = v\<close> of \<open>int\<close> values.\<close>

definition storeBackground :: "int \<Rightarrow> int \<Rightarrow> int \<Rightarrow> int \<Rightarrow> EngineState \<Rightarrow> fault + EngineState" where
  "storeBackground i h s v st =
    bindE (store_at (background st) i \<lparr>hsv_h = u8 h, hsv_s = u8 s, hsv_v = u8 v\<rparr>)
      (\<lambda>buf. Inr (st\<lparr>background := buf\<rparr>))"

subsection \<open>Background modes\<close>

definition renderFlatBackground :: "EngineState \<Rightarrow> fault + EngineState" where
  "renderFlatBackground st =
    for_each (\<lambda>i st. storeBackground i (bgHue st) (bgSat st) (bgBright st) st)
      [0..numLeds st - 1] st"

definition renderRainbowBackground :: "EngineState \<Rightarrow> fault + EngineState" where
  "renderRainbowBackground st =
    (if numLeds st = 0 then Inl DivisionByZero
     else let rainbowInc = 255 sdiv numLeds st
          in for_each (\<lambda>i st. storeBackground i ((bgHue st + i * rainbowInc) smod 256)
                                (bgSat st) (bgBright st) st)
               [0..numLeds st - 1] st)"

definition renderSinusoidBackground :: "EngineState \<Rightarrow> fault + EngineState" where
  "renderSinusoidBackground st =
    (if bgLedLength st = 0 then renderFlatBackground st
     else for_each
            (\<lambda>i st.
               let cphaseIdx = (((i + bgLedStart st) * 64) sdiv bgLedLength st) smod 64
               in bindE (table_at COLOR_PHASE cphaseIdx)
                    (\<lambda>phase. let h = (256 + bgHue st + (cAmp st * phase) sdiv 100) smod 256
                              in storeBackground i h (bgSat st) (bgBright st) st))
            [0..numLeds st - 1] st)"

definition updateBackground :: "EngineState \<Rightarrow> fault + EngineState" where
  "updateBackground st =
    bindE (if bgMode st = 0 then renderFlatBackground st
           else if bgMode st = 1 then renderRainbowBackground st
           else if bgMode st = 2 then renderSinusoidBackground st
           else renderFlatBackground st)
      (\<lambda>st. bindE (memcpy (leds st) (background st) (numLeds st))
               (\<lambda>buf. Inr (st\<lparr>leds := buf\<rparr>)))"

subsection \<open>Foreground modes\<close>

text \<open>
  \<open>currentNote\<close> (17 elements) and \<open>CHANNEL_TO_LED\<close> (17 rows of 6) are read at the
  constant loop bounds 1..16 and 0..5 only.
\<close>

definition renderNotesToDrives :: "EngineState \<Rightarrow> fault + EngineState" where
  "renderNotesToDrives st =
    for_each
      (\<lambda>ch st.
         if currentNote st ! nat ch \<noteq> 0
         then for_each
                (\<lambda>i st. let ledIdx = CHANNEL_TO_LED ! nat ch ! nat i
                         in setLED ledIdx (u8 (ffHue st)) (u8 (ffSat st)) (u8 (ffBright st)) st)
                [0..5] st
         else for_each
                (\<lambda>i st. let ledIdx = CHANNEL_TO_LED ! nat ch ! nat i
                         in if i smod 2 = 0
                            then setLED ledIdx 80 200 (u8 (ffBright st)) st
                            else setLED ledIdx 100 200 (u8 (ffBright st)) st)
                [0..5] st)
      [1..16] st"

definition renderRainbowWheel :: "EngineState \<Rightarrow> fault + EngineState" where
  "renderRainbowWheel st =
    (if numLeds st = 0 then Inl DivisionByZero
     else let rainbowInc = 255 sdiv numLeds st
          in for_each (\<lambda>i st. setLED i (u8 ((ffHue st + i * rainbowInc) smod 256))
                                (u8 (ffSat st)) (u8 (ffBright st)) st)
               [0..numLeds st - 1] st)"

definition renderMovingDots :: "EngineState \<Rightarrow> fault + EngineState" where
  "renderMovingDots st =
    (if lines st = 0 then Inr st
     else
       let st = st\<lparr>lineOffset := numLeds st sdiv lines st\<rparr>
       in for_each
            (\<lambda>line st.
               for_each
                 (\<lambda>led st.
                    if numLeds st = 0 then Inl DivisionByZero
                    else let idx = (led + line * lineOffset st) smod numLeds st
                         in setLED idx (u8 (ffHue st)) (u8 (ffSat st)) (u8 (ffBright st)) st)
                 [ffLedStart st..ffLedStart st + ffLedLength st - 1] st)
            [0..lines st - 1] st)"

text \<open>
  The inner loop of Comets carries the local \<open>count\<close> beside the engine: it starts at
  \<open>ffLedLength - 1\<close> for every line and is decremented after each LED. \<open>comets_led\<close>
  is the body of the inner loop, \<open>comets_line\<close> the body of the outer one.
\<close>

definition comets_led :: "int \<Rightarrow> int \<Rightarrow> int \<times> EngineState \<Rightarrow> fault + int \<times> EngineState" where
  "comets_led line led cst =
    (let count = fst cst; st = snd cst
     in if numLeds st = 0 then Inl DivisionByZero
        else let idx = (led + line * lineOffset st) smod numLeds st;
                 brightness = (ffBright st * (ffLedLength st - count)) sdiv ffLedLength st
             in bindE (setLED idx (u8 (ffHue st)) (u8 (ffSat st)) (u8 brightness) st)
                  (\<lambda>st. Inr (count - 1, st)))"

definition comets_line :: "int \<Rightarrow> EngineState \<Rightarrow> fault + EngineState" where
  "comets_line line st =
    bindE (for_each (comets_led line)
             [ffLedStart st..ffLedStart st + ffLedLength st - 1]
             (ffLedLength st - 1, st))
      (\<lambda>cst. Inr (snd cst))"

definition renderComets :: "EngineState \<Rightarrow> fault + EngineState" where
  "renderComets st =
    (if lines st = 0 \<or> ffLedLength st = 0 then Inr st
     else
       let st = st\<lparr>lineOffset := numLeds st sdiv lines st\<rparr>
       in for_each comets_line [0..lines st - 1] st)"

text \<open>
  The outer loop of Back-and-forth steps by \<open>2 * ffLedLength\<close>: \<open>block_starts\<close> lists
  the values \<open>block\<close> takes below \<open>n\<close> for a positive step. For a negative
  \<open>ffLedLength\<close> the counter only decreases, and a loop that is entered never ends.
\<close>

function block_starts :: "int \<Rightarrow> int \<Rightarrow> int \<Rightarrow> int list" where
  "block_starts n step block =
    (if block < n \<and> 0 < step then block # block_starts n step (block + step) else [])"
  by pat_completeness auto
termination
  by (relation "measure (\<lambda>(n, step, block). nat (n - block))") auto

declare block_starts.simps [simp del]

definition renderBackAndForth :: "EngineState \<Rightarrow> fault + EngineState" where
  "renderBackAndForth st =
    (if ffLedLength st = 0 then Inr st
     else if ffLedLength st < 0 \<and> 0 < numLeds st then Inl Diverges
     else for_each
            (\<lambda>block st.
               for_each
                 (\<lambda>led st.
                    let idx = (ffLedStart st * ffLedLength st + block + led) smod numLeds st
                    in setLED idx (u8 (ffHue st)) (u8 (ffSat st)) (u8 (ffBright st)) st)
                 [0..ffLedLength st - 1] st)
            (block_starts (numLeds st) (2 * ffLedLength st) 0) st)"

definition renderMoveStartLED :: "EngineState \<Rightarrow> fault + EngineState" where
  "renderMoveStartLED st =
    (if lines st = 0 then Inr st
     else
       let st = st\<lparr>lineOffset := numLeds st sdiv lines st\<rparr>
       in if numLeds st = 0 then Inl DivisionByZero
          else
            let rainbowInc = 255 sdiv numLeds st
            in for_each
                 (\<lambda>line st.
                    for_each
                      (\<lambda>led st.
                         let idx = (led + line * lineOffset st) smod numLeds st;
                             hue = (ffHue st + led * rainbowInc) smod 256
                         in setLED idx (u8 hue) (u8 (ffSat st)) (u8 (ffBright st)) st)
                      [ffLedStart st..ffLedStart st + ffLedLength st - 1] st)
                 [0..lines st - 1] st)"

definition renderColorSinusoid :: "EngineState \<Rightarrow> fault + EngineState" where
  "renderColorSinusoid st =
    (if ffLedLength st = 0 then Inr st
     else for_each
            (\<lambda>i st.
               let cphaseIdx = (((i + ffLedStart st) * 64) sdiv ffLedLength st) smod 64
               in bindE (table_at COLOR_PHASE cphaseIdx)
                    (\<lambda>phase. let h = (256 + ffHue st + (cAmp st * phase) sdiv 100) smod 256
                              in setLED i (u8 h) (u8 (ffSat st)) (u8 (ffBright st)) st))
            [0..numLeds st - 1] st)"

text \<open>
  \<open>srand\<close> and \<open>rand\<close> belong to the C library. \<open>rnd seed\<close> stands for the value of
  the first \<open>rand()\<close> after \<open>srand(seed)\<close>, which the library fixes for each seed.
\<close>

definition renderFlashLights :: "(32 word \<Rightarrow> int) \<Rightarrow> EngineState \<Rightarrow> fault + EngineState" where
  "renderFlashLights rnd st =
    (if numLeds st = 0 then Inl DivisionByZero
     else let randomLed = rnd (frameCounter st) smod numLeds st
          in setLED randomLed (u8 (ffHue st)) (u8 (ffSat st)) (u8 (ffBright st)) st)"

text \<open>Centre and clamped amplitude of the wave, as the first lines of both wave modes compute them.\<close>

definition wave_tMiddle :: "EngineState \<Rightarrow> int" where
  "wave_tMiddle st = ((numLeds st sdiv 2 - 1) * pan st) sdiv 127 + numLeds st sdiv 4"

definition ocean_amp :: "EngineState \<Rightarrow> int" where
  "ocean_amp st =
    (let tMiddle = wave_tMiddle st;
         amp = ffLedLength st sdiv 2
     in if tMiddle - amp \<le> 24 then tMiddle - 24
        else if tMiddle + amp > 71 then 71 - tMiddle
        else amp)"

definition opposing_amp :: "EngineState \<Rightarrow> int" where
  "opposing_amp st =
    (let tMiddle = wave_tMiddle st;
         amp = ffLedLength st sdiv 2
     in if tMiddle - amp \<le> 24 then tMiddle - 23
        else if tMiddle + amp > 71 then 71 - tMiddle
        else amp)"

text \<open>The guarded read of the mirror table followed by \<open>setLED\<close>.\<close>

definition mirrorLED :: "int \<Rightarrow> int \<Rightarrow> EngineState \<Rightarrow> fault + EngineState" where
  "mirrorLED j brightness st =
    (if j \<ge> 0 \<and> j < 48
     then bindE (table_at TOP_BOTTOM_MIRROR_MAP j)
            (\<lambda>mirrorIdx. setLED mirrorIdx (u8 (ffHue st)) (u8 (ffSat st)) (u8 brightness) st)
     else Inr st)"

definition renderOceanWaves :: "EngineState \<Rightarrow> fault + EngineState" where
  "renderOceanWaves st =
    (let tMiddle = wave_tMiddle st;
         amp = ocean_amp st
     in if amp \<le> 0 then Inr st
        else for_each
               (\<lambda>p st.
                  let brightness = (ffBright st * (amp - p)) sdiv amp
                  in bindE (setLED (tMiddle + p) (u8 (ffHue st)) (u8 (ffSat st)) (u8 brightness) st)
                    (\<lambda>st. bindE (setLED (tMiddle - p) (u8 (ffHue st)) (u8 (ffSat st)) (u8 brightness) st)
                    (\<lambda>st. bindE (mirrorLED (tMiddle + p - 24) brightness st)
                    (\<lambda>st. mirrorLED (tMiddle - p - 24) brightness st))))
               [0..amp - 1] st)"

definition renderOpposingWaves :: "EngineState \<Rightarrow> fault + EngineState" where
  "renderOpposingWaves st =
    (let tMiddle = wave_tMiddle st;
         amp = opposing_amp st
     in if amp \<le> 0 then Inr st
        else for_each
               (\<lambda>p st.
                  let brightness = (ffBright st * (amp - p)) sdiv amp
                  in bindE (setLED (tMiddle + p) (u8 (ffHue st)) (u8 (ffSat st)) (u8 brightness) st)
                    (\<lambda>st. bindE (setLED (tMiddle - p) (u8 (ffHue st)) (u8 (ffSat st)) (u8 brightness) st)
                    (\<lambda>st. let oppositeIdx1 = (numLeds st - tMiddle) + p - 24;
                               oppositeIdx2 = (numLeds st - tMiddle) - p - 24
                           in bindE (mirrorLED oppositeIdx1 brightness st)
                                (\<lambda>st. mirrorLED oppositeIdx2 brightness st))))
               [0..amp] st)"

definition renderForeground :: "(32 word \<Rightarrow> int) \<Rightarrow> EngineState \<Rightarrow> fault + EngineState" where
  "renderForeground rnd st =
    (if ffMode st = 0 then renderNotesToDrives st
     else if ffMode st = 1 then renderRainbowWheel st
     else if ffMode st = 2 then renderMovingDots st
     else if ffMode st = 3 then renderComets st
     else if ffMode st = 4 then renderBackAndForth st
     else if ffMode st = 5 then renderMoveStartLED st
     else if ffMode st = 6 then renderColorSinusoid st
     else if ffMode st = 7 then renderFlashLights rnd st
     else if ffMode st = 8 then renderOceanWaves st
     else if ffMode st = 9 then renderOpposingWaves st
     else Inr st)"

definition render :: "(32 word \<Rightarrow> int) \<Rightarrow> EngineState \<Rightarrow> fault + EngineState" where
  "render rnd st =
    (let st = st\<lparr>frameCounter := frameCounter st + 1\<rparr>
     in bindE (updateBackground st) (renderForeground rnd))"

text \<open>The read-only snapshot \<open>getLEDs()\<close> exposes: the \<open>getNumLEDs()\<close> elements of the buffer.\<close>

definition getLEDs :: "EngineState \<Rightarrow> HSVColor list" where
  "getLEDs st = take (nat (numLeds st)) (leds st)"

section \<open>Sequences of calls\<close>

datatype event =
    ControlChange "8 word" "8 word" "8 word"
  | NoteOn "8 word" "8 word" "8 word"
  | NoteOff "8 word" "8 word" "8 word"
  | SetCC int int
  | Render

fun apply_event :: "(32 word \<Rightarrow> int) \<Rightarrow> event \<Rightarrow> EngineState \<Rightarrow> fault + EngineState" where
  "apply_event rnd (ControlChange channel control val) st = Inr (handleControlChange channel control val st)"
| "apply_event rnd (NoteOn channel note velocity) st = Inr (handleNoteOn channel note velocity st)"
| "apply_event rnd (NoteOff channel note velocity) st = Inr (handleNoteOff channel note velocity st)"
| "apply_event rnd (SetCC ccNumber val) st = Inr (setCC ccNumber val st)"
| "apply_event rnd Render st = render rnd st"

definition run_events :: "(32 word \<Rightarrow> int) \<Rightarrow> event list \<Rightarrow> EngineState \<Rightarrow> fault + EngineState" where
  "run_events rnd es st = for_each (apply_event rnd) es st"

text \<open>The interface gives a controller value the MIDI range 0..127.\<close>

fun midi_value :: "event \<Rightarrow> bool" where
  "midi_value (ControlChange channel control val) = (val \<le> 127)"
| "midi_value (SetCC ccNumber val) = (0 \<le> val \<and> val \<le> 127)"
| "midi_value e = True"

section \<open>Notions used by the properties\<close>

text \<open>Both buffers hold the \<open>numLeds\<close> elements the constructor allocates.\<close>

definition buffers_allocated :: "EngineState \<Rightarrow> bool" where
  "buffers_allocated st \<longleftrightarrow>
     0 \<le> numLeds st \<and> length (leds st) = nat (numLeds st) \<and> length (background st) = nat (numLeds st)"

text \<open>
  The start and length parameters are never negative: the handlers store \<open>uint8_t\<close>
  values in them, and \<open>handleNoteOn\<close> only counts \<open>ffLedStart\<close> upwards.
\<close>

definition windows_nonneg :: "EngineState \<Rightarrow> bool" where
  "windows_nonneg st \<longleftrightarrow>
     0 \<le> ffLedStart st \<and> 0 \<le> ffLedLength st \<and> 0 \<le> bgLedStart st \<and> 0 \<le> bgLedLength st"

text \<open>The six colour fields are twice a MIDI value.\<close>

definition doubled :: "int \<Rightarrow> bool" where
  "doubled x \<longleftrightarrow> (\<exists>k. 0 \<le> k \<and> k \<le> 127 \<and> x = 2 * k)"

definition colours_even :: "EngineState \<Rightarrow> bool" where
  "colours_even st \<longleftrightarrow>
     even (ffHue st) \<and> even (ffSat st) \<and> even (ffBright st) \<and>
     even (bgHue st) \<and> even (bgSat st) \<and> even (bgBright st)"

definition colours_doubled :: "EngineState \<Rightarrow> bool" where
  "colours_doubled st \<longleftrightarrow>
     doubled (ffHue st) \<and> doubled (ffSat st) \<and> doubled (ffBright st) \<and>
     doubled (bgHue st) \<and> doubled (bgSat st) \<and> doubled (bgBright st)"

text \<open>
  The colour each background mode stores at LED \<open>i\<close>, and the buffer a background pass
  leaves: the closed form of the three fill loops.
\<close>

definition flat_colour :: "EngineState \<Rightarrow> HSVColor" where
  "flat_colour st = \<lparr>hsv_h = u8 (bgHue st), hsv_s = u8 (bgSat st), hsv_v = u8 (bgBright st)\<rparr>"

definition rainbow_colour :: "EngineState \<Rightarrow> int \<Rightarrow> HSVColor" where
  "rainbow_colour st i =
     \<lparr>hsv_h = u8 ((bgHue st + i * (255 sdiv numLeds st)) smod 256),
      hsv_s = u8 (bgSat st), hsv_v = u8 (bgBright st)\<rparr>"

definition sinusoid_colour :: "EngineState \<Rightarrow> int \<Rightarrow> HSVColor" where
  "sinusoid_colour st i =
     \<lparr>hsv_h = u8 ((256 + bgHue st
                    + (cAmp st * (COLOR_PHASE ! nat ((((i + bgLedStart st) * 64) sdiv bgLedLength st) smod 64)))
                        sdiv 100) smod 256),
      hsv_s = u8 (bgSat st), hsv_v = u8 (bgBright st)\<rparr>"

definition background_colour :: "EngineState \<Rightarrow> int \<Rightarrow> HSVColor" where
  "background_colour st i =
     (if bgMode st = 1 then rainbow_colour st i
      else if bgMode st = 2 \<and> bgLedLength st \<noteq> 0 then sinusoid_colour st i
      else flat_colour st)"

definition background_fill :: "EngineState \<Rightarrow> HSVColor list" where
  "background_fill st = map (background_colour st) [0..numLeds st - 1]"

text \<open>
  The LED index Comets computes for position \<open>led\<close> of line \<open>line\<close>, and the indices
  it visits for one line, in the order of the inner loop.
\<close>

definition comet_idx :: "EngineState \<Rightarrow> int \<Rightarrow> int \<Rightarrow> int" where
  "comet_idx st line led = (led + line * (numLeds st sdiv lines st)) smod numLeds st"

definition comet_positions :: "EngineState \<Rightarrow> int \<Rightarrow> int list" where
  "comet_positions st line =
     map (comet_idx st line) [ffLedStart st..ffLedStart st + ffLedLength st - 1]"

text \<open>
  Line \<open>line\<close> is painted on \<open>ffLedLength\<close> different LEDs, none of which another line
  paints.
\<close>

definition comet_separate :: "EngineState \<Rightarrow> int \<Rightarrow> bool" where
  "comet_separate st line \<longleftrightarrow>
     distinct (comet_positions st line) \<and>
     (\<forall>other \<in> set [0..lines st - 1].
        other \<noteq> line \<longrightarrow> set (comet_positions st other) \<inter> set (comet_positions st line) = {})"

section \<open>Further notions\<close>

text \<open>
  \<open>only_leds base t\<close>: \<open>t\<close> is \<open>base\<close> with other contents in the LED buffer, the
  buffer keeping its length. \<open>fg_frame st t\<close> further lets \<open>lineOffset\<close> differ: it is all
  a foreground mode may change.
\<close>

definition only_leds :: "EngineState \<Rightarrow> EngineState \<Rightarrow> bool" where
  "only_leds base t \<longleftrightarrow> (\<exists>l. t = base\<lparr>leds := l\<rparr> \<and> length l = length (leds base))"

definition fg_frame :: "EngineState \<Rightarrow> EngineState \<Rightarrow> bool" where
  "fg_frame st t \<longleftrightarrow> (\<exists>l lo. t = st\<lparr>leds := l, lineOffset := lo\<rparr> \<and> length l = length (leds st))"

text \<open>
  \<open>fc c\<close> sets the frame counter to \<open>c\<close>.
\<close>

abbreviation fc :: "32 word \<Rightarrow> EngineState \<Rightarrow> EngineState" where
  "fc c \<equiv> frameCounter_update (\<lambda>_. c)"

text \<open>
  What holds of the engine between any two calls: the buffers are allocated for at least
  one LED and the window parameters are not negative.
\<close>

definition engine_inv :: "EngineState \<Rightarrow> bool" where
  "engine_inv st \<longleftrightarrow> buffers_allocated st \<and> 1 \<le> numLeds st \<and> windows_nonneg st"

text \<open>
  For Comets: the colour stored while the local \<open>count\<close> has a given value, the engine
  inside the loops (\<open>lineOffset\<close> assigned, LED buffer \<open>l\<close>), and the brightness
  rendered at the trailing LED (position \<open>ffLedStart\<close>, painted first) and at the leading
  LED (position \<open>ffLedStart + ffLedLength - 1\<close>, painted last) of a line.
\<close>

definition comet_colour :: "EngineState \<Rightarrow> int \<Rightarrow> HSVColor" where
  "comet_colour st count =
     \<lparr>hsv_h = u8 (ffHue st), hsv_s = u8 (ffSat st),
      hsv_v = u8 ((ffBright st * (ffLedLength st - count)) sdiv ffLedLength st)\<rparr>"

definition comet_base :: "EngineState \<Rightarrow> HSVColor list \<Rightarrow> EngineState" where
  "comet_base st l = st\<lparr>lineOffset := numLeds st sdiv lines st, leds := l\<rparr>"

definition comet_trailing_v :: "EngineState \<Rightarrow> int \<Rightarrow> fault + int" where
  "comet_trailing_v st line =
     map_sum id (\<lambda>t. uint (hsv_v (leds t ! nat (comet_idx st line (ffLedStart st))))) (renderComets st)"

definition comet_leading_v :: "EngineState \<Rightarrow> int \<Rightarrow> fault + int" where
  "comet_leading_v st line =
     map_sum id (\<lambda>t. uint (hsv_v (leds t ! nat (comet_idx st line (ffLedStart st + ffLedLength st - 1)))))
       (renderComets st)"

subsection \<open>Example engines\<close>

text \<open>
  Engines reached from a fresh 108-LED engine (2 LEDs for \<open>wrapped_comet\<close>) by control
  changes; the properties below are evaluated on them.
\<close>

definition extreme_pan :: EngineState where
  "extreme_pan = handleControlChange 1 6 8 (handleControlChange 1 10 127
               (handleControlChange 1 5 127 (initialState 108)))"

definition high_wave :: EngineState where
  "high_wave = handleControlChange 1 6 8 (handleControlChange 1 5 127 (initialState 108))"

definition three_comets :: EngineState where
  "three_comets = handleControlChange 1 7 3 (handleControlChange 1 5 4
                    (handleControlChange 1 6 3 (initialState 108)))"

definition dark_comet :: EngineState where
  "dark_comet = handleControlChange 1 3 0 (handleControlChange 1 7 1
                  (handleControlChange 1 5 2 (handleControlChange 1 6 3 (initialState 108))))"

definition wrapped_comet :: EngineState where
  "wrapped_comet = handleControlChange 1 7 1 (handleControlChange 1 5 3
                     (handleControlChange 1 6 3 (initialState 2)))"

definition odd_selectors :: EngineState where
  "odd_selectors = handleControlChange 1 9 77 (handleControlChange 1 6 42 (initialState 108))"

definition flash_state :: EngineState where
  "flash_state = handleControlChange 1 6 7 (initialState 108)"

definition start_126 :: EngineState where
  "start_126 = handleControlChange 1 4 126 (handleControlChange 1 6 5 (initialState 108))"

definition song :: "event list" where
  "song = [ControlChange 1 1 64, NoteOn 1 60 100, Render, SetCC 13 127, ControlChange 2 6 5,
           NoteOn 2 62 90, Render, NoteOff 1 60 0]"

section \<open>Loops and sequencing\<close>

lemma bindE_Inr [simp]: "bindE (Inr x) f = f x"
  by (simp add: bindE_def)

lemma bindE_Inl [simp]: "bindE (Inl e) f = Inl e"
  by (simp add: bindE_def)

lemma for_each_append: "for_each body (xs @ ys) st = bindE (for_each body xs st) (for_each body ys)"
  by (induction xs arbitrary: st) (auto simp add: bindE_def split: sum.splits)

lemma for_each_inv:
  assumes "I st"
    and "\<And>x t. x \<in> set xs \<Longrightarrow> I t \<Longrightarrow> \<exists>t'. body x t = Inr t' \<and> I t'"
  shows "\<exists>t'. for_each body xs st = Inr t' \<and> I t'"
  using assms
proof (induction xs arbitrary: st)
  case Nil
  then show ?case by simp
next
  case (Cons x xs)
  from Cons.prems obtain t where t: "body x st = Inr t" "I t" by (meson list.set_intros(1))
  have "\<exists>t'. for_each body xs t = Inr t' \<and> I t'"
    by (rule Cons.IH [OF t(2)]) (simp add: Cons.prems(2))
  with t show ?case by simp
qed

lemma for_each_commute:
  assumes "\<And>x t. body x (g t) = map_sum id g (body x t)"
  shows "for_each body xs (g t) = map_sum id g (for_each body xs t)"
proof (induction xs arbitrary: t)
  case Nil
  then show ?case by simp
next
  case (Cons x xs)
  show ?case
  proof (cases "body x t")
    case (Inl e)
    then show ?thesis by (simp add: assms)
  next
    case (Inr t')
    then show ?thesis by (simp add: assms Cons.IH)
  qed
qed

lemma for_each_commute':
  assumes "s' = g s" and "\<And>x t. body x (g t) = map_sum id g (body x t)"
  shows "for_each body xs s' = map_sum id g (for_each body xs s)"
  unfolding assms(1) by (rule for_each_commute) (rule assms(2))

lemma chain_commute:
  assumes "\<And>t. m1 (g t) = map_sum id g (m1 t)"
    and "\<And>t. m2 (g t) = map_sum id g (m2 t)"
    and "\<And>t. m3 (g t) = map_sum id g (m3 t)"
    and "\<And>u t. m4 (g u) (g t) = map_sum id g (m4 u t)"
  shows "bindE (m1 (g t)) (\<lambda>t1. bindE (m2 t1) (\<lambda>t2. bindE (m3 t2) (\<lambda>t3. m4 t2 t3)))
       = map_sum id g (bindE (m1 t) (\<lambda>t1. bindE (m2 t1) (\<lambda>t2. bindE (m3 t2) (\<lambda>t3. m4 t2 t3))))"
proof (cases "m1 t")
  case (Inl e)
  then show ?thesis by (simp add: assms(1))
next
  case t1: (Inr t1)
  show ?thesis
  proof (cases "m2 t1")
    case (Inl e)
    then show ?thesis by (simp add: assms(1,2) t1)
  next
    case t2: (Inr t2)
    show ?thesis
    proof (cases "m3 t2")
      case (Inl e)
      then show ?thesis by (simp add: assms(1,2,3) t1 t2)
    next
      case (Inr t3)
      then show ?thesis by (simp add: assms t1 t2)
    qed
  qed
qed

section \<open>Arithmetic of the C++ operators\<close>

lemma sdiv_nonneg_eq: "0 \<le> a \<Longrightarrow> 0 \<le> b \<Longrightarrow> a sdiv b = a div (b::int)"
  by (simp add: signed_divide_int_def sgn_if)

lemma smod_nonneg_eq: "0 \<le> a \<Longrightarrow> 0 < b \<Longrightarrow> a smod b = a mod (b::int)"
  by (simp add: signed_modulo_int_def sgn_if)

lemma uint_u8: "0 \<le> k \<Longrightarrow> k \<le> 255 \<Longrightarrow> uint (u8 k) = k"
  by (simp add: u8_def uint_word_of_int take_bit_eq_mod)

lemma uint_u8_small: "0 \<le> k \<Longrightarrow> k \<le> 127 \<Longrightarrow> uint (word_of_int k :: 8 word) = k"
  by (simp add: uint_word_of_int take_bit_eq_mod)

lemma sdiv_double: "0 \<le> k \<Longrightarrow> (k * 2) sdiv 2 = (k::int)"
  by (simp add: signed_divide_int_def sgn_if)

lemma u8_le_127: "0 \<le> k \<Longrightarrow> k \<le> 127 \<Longrightarrow> (word_of_int k :: 8 word) \<le> 127"
  by (simp add: word_le_def uint_word_of_int take_bit_eq_mod)

lemma cc_cases: "1 \<le> cc \<Longrightarrow> cc \<le> 15 \<Longrightarrow>
  cc = 1 \<or> cc = 2 \<or> cc = 3 \<or> cc = 4 \<or> cc = 5 \<or> cc = 6 \<or> cc = 7 \<or> cc = 8 \<or> cc = 9 \<or> cc = 10
  \<or> cc = 11 \<or> cc = 12 \<or> cc = 13 \<or> cc = 14 \<or> cc = (15::int)"
  by arith

lemma mode_cases:
  "(m::int) = 0 \<or> m = 1 \<or> m = 2 \<or> m = 3 \<or> m = 4 \<or> m = 5 \<or> m = 6 \<or> m = 7 \<or> m = 8 \<or> m = 9
   \<or> (m < 0 \<or> 9 < m)"
  by arith

section \<open>Parameters and MIDI handlers\<close>

text \<open>
  Claim C5. For every controller number 1..15 and every value 0..127, \<open>getCC\<close> after
  \<open>setCC\<close> returns the value, and \<open>setCC\<close> changes the engine exactly as
  \<open>handleControlChange\<close> on channel 0 does with the same controller number and value.
\<close>

theorem setCC_getCC_roundtrip:
  assumes "1 \<le> cc" "cc \<le> 15" "0 \<le> val" "val \<le> 127"
  shows "getCC cc (setCC cc val st) = val
       \<and> setCC cc val st = handleControlChange 0 (word_of_int cc) (word_of_int val) st"
proof -
  from assms(1,2) have c: "cc = 1 \<or> cc = 2 \<or> cc = 3 \<or> cc = 4 \<or> cc = 5 \<or> cc = 6 \<or> cc = 7 \<or> cc = 8 \<or> cc = 9 \<or> cc = 10
  \<or> cc = 11 \<or> cc = 12 \<or> cc = 13 \<or> cc = 14 \<or> cc = (15::int)" by (rule cc_cases)
  have u: "uint (word_of_int val :: 8 word) = val" using assms(3,4) by (rule uint_u8_small)
  have d: "(val * 2) sdiv 2 = val" using assms(3) by (rule sdiv_double)
  from c have "getCC cc (setCC cc val st) = val"
    by (elim disjE) (simp_all add: getCC_def setCC_def handleControlChange_def u d)
  then show ?thesis by (simp add: setCC_def)
qed

theorem setCC_getCC_roundtrip_witness:
  "(1::int) \<le> 3 \<and> (3::int) \<le> 15 \<and> (0::int) \<le> 100 \<and> (100::int) \<le> 127
   \<and> getCC 3 (setCC 3 100 (initialState 108)) = 100"
  using setCC_getCC_roundtrip [of 3 100 "initialState 108", THEN conjunct1] by simp

text \<open>
  Claim C6. For every channel and every value, \<open>handleControlChange\<close> with a controller
  number from 1 to 15 updates the one field mapped to that number and nothing else (the
  result is the old engine with that field replaced): CC1-7 are \<open>ffHue\<close>, \<open>ffSat\<close>,
  \<open>ffBright\<close>, \<open>ffLedStart\<close>, \<open>ffLedLength\<close>, \<open>ffMode\<close>, \<open>lines\<close>; CC8 is
  \<open>cAmp\<close>, CC9 \<open>bgMode\<close>, CC10 \<open>pan\<close>; CC11-15 are \<open>bgHue\<close>, \<open>bgSat\<close>,
  \<open>bgBright\<close>, \<open>bgLedStart\<close>, \<open>bgLedLength\<close>. The six colour fields get twice the
  value, the others the value itself. Controller 0 and controllers above 15 leave the
  engine unchanged.
\<close>

theorem handleControlChange_one_field:
  "handleControlChange channel 1 val st = st\<lparr>ffHue := uint val * 2\<rparr>
 \<and> handleControlChange channel 2 val st = st\<lparr>ffSat := uint val * 2\<rparr>
 \<and> handleControlChange channel 3 val st = st\<lparr>ffBright := uint val * 2\<rparr>
 \<and> handleControlChange channel 4 val st = st\<lparr>ffLedStart := uint val\<rparr>
 \<and> handleControlChange channel 5 val st = st\<lparr>ffLedLength := uint val\<rparr>
 \<and> handleControlChange channel 6 val st = st\<lparr>ffMode := uint val\<rparr>
 \<and> handleControlChange channel 7 val st = st\<lparr>lines := uint val\<rparr>
 \<and> handleControlChange channel 8 val st = st\<lparr>cAmp := uint val\<rparr>
 \<and> handleControlChange channel 9 val st = st\<lparr>bgMode := uint val\<rparr>
 \<and> handleControlChange channel 10 val st = st\<lparr>pan := uint val\<rparr>
 \<and> handleControlChange channel 11 val st = st\<lparr>bgHue := uint val * 2\<rparr>
 \<and> handleControlChange channel 12 val st = st\<lparr>bgSat := uint val * 2\<rparr>
 \<and> handleControlChange channel 13 val st = st\<lparr>bgBright := uint val * 2\<rparr>
 \<and> handleControlChange channel 14 val st = st\<lparr>bgLedStart := uint val\<rparr>
 \<and> handleControlChange channel 15 val st = st\<lparr>bgLedLength := uint val\<rparr>
 \<and> (control = 0 \<or> 15 < control \<longrightarrow> handleControlChange channel control val st = st)"
proof -
  have "control = 0 \<or> 15 < control \<Longrightarrow> handleControlChange channel control val st = st"
  proof -
    assume a: "control = 0 \<or> 15 < control"
    then have "control \<noteq> 1" "control \<noteq> 2" "control \<noteq> 3" "control \<noteq> 4" "control \<noteq> 5"
      "control \<noteq> 6" "control \<noteq> 7" "control \<noteq> 8" "control \<noteq> 9" "control \<noteq> 10"
      "control \<noteq> 11" "control \<noteq> 12" "control \<noteq> 13" "control \<noteq> 14" "control \<noteq> 15"
      by auto
    then show ?thesis by (simp add: handleControlChange_def)
  qed
  then show ?thesis by (simp add: handleControlChange_def)
qed

theorem handleControlChange_one_field_witness:
  "(15::8 word) < 200 \<and> handleControlChange 1 200 5 (initialState 108) = initialState 108
   \<and> handleControlChange 1 3 5 (initialState 108) = (initialState 108)\<lparr>ffBright := 10\<rparr>"
  using handleControlChange_one_field [of 1 5 "initialState 108" 200] by simp

text \<open>
  Claim C7. In foreground mode 5 every \<open>handleNoteOn\<close>, whatever the channel, note and
  velocity, advances \<open>ffLedStart\<close> by one and sets it to 0 once the advanced value reaches
  127: from 126 one note-on gives 0, and from any value in 0..126 the result is the
  successor modulo 127.
\<close>

theorem handleNoteOn_moves_start:
  assumes "ffMode st = 5"
  shows "ffLedStart (handleNoteOn channel note velocity st)
           = (if ffLedStart st + 1 \<ge> 127 then 0 else ffLedStart st + 1)
       \<and> (ffLedStart st = 126 \<longrightarrow> ffLedStart (handleNoteOn channel note velocity st) = 0)
       \<and> (0 \<le> ffLedStart st \<and> ffLedStart st \<le> 126 \<longrightarrow>
            ffLedStart (handleNoteOn channel note velocity st) = (ffLedStart st + 1) mod 127)"
  using assms by (auto simp add: handleNoteOn_def Let_def)

theorem handleNoteOn_moves_start_witness:
  "ffMode start_126 = 5 \<and> ffLedStart start_126 = 126
   \<and> ffLedStart (handleNoteOn 9 60 100 start_126) = 0"
proof -
  have a: "ffMode start_126 = 5" "ffLedStart start_126 = 126"
    by (simp_all add: start_126_def handleControlChange_def initialState_def)
  show ?thesis using handleNoteOn_moves_start [OF a(1), of 9 60 100] a by simp
qed

section \<open>The mirror table\<close>

lemma mirror_table: "list_all (\<lambda>j. mirror j = Some (if j < 24 then 23 - j else 119 - j)) [0..47]"
  by code_simp

lemma mirror_eq: "0 \<le> j \<Longrightarrow> j < 48 \<Longrightarrow> mirror j = Some (if j < 24 then 23 - j else 119 - j)"
  using mirror_table by (simp add: list_all_iff)

text \<open>
  Claim C2, as amended. On the table indices 0..23 the mirror table is the involution
  \<open>j \<mapsto> 23 - j\<close>, with image 0..23. On the indices 24..47 it is \<open>j \<mapsto> 119 - j\<close>,
  with image 72..95; these values are no indices of the table, so the table cannot be
  applied to them again.
\<close>

theorem mirror_map_halves:
  "(0 \<le> j \<and> j < 24 \<longrightarrow> mirror j = Some (23 - j) \<and> Option.bind (mirror j) mirror = Some j)
 \<and> (24 \<le> j \<and> j < 48 \<longrightarrow> mirror j = Some (119 - j) \<and> 72 \<le> 119 - j \<and> 119 - j \<le> 95
        \<and> Option.bind (mirror j) mirror = None)"
proof -
  have "mirror j = Some (23 - j) \<and> Option.bind (mirror j) mirror = Some j" if "0 \<le> j" "j < 24"
  proof -
    have "mirror j = Some (23 - j)" using that mirror_eq [of j] by simp
    moreover have "mirror (23 - j) = Some j" using that mirror_eq [of "23 - j"] by simp
    ultimately show ?thesis by simp
  qed
  moreover have "mirror j = Some (119 - j) \<and> 72 \<le> 119 - j \<and> 119 - j \<le> 95
        \<and> Option.bind (mirror j) mirror = None" if "24 \<le> j" "j < 48"
  proof -
    have "mirror j = Some (119 - j)" using that mirror_eq [of j] by simp
    moreover have "mirror (119 - j) = None" using that by (simp add: mirror_def)
    ultimately show ?thesis using that by simp
  qed
  ultimately show ?thesis by blast
qed

theorem mirror_map_halves_witness:
  "(0::int) \<le> 5 \<and> (5::int) < 24 \<and> mirror 5 = Some 18 \<and> Option.bind (mirror 5) mirror = Some 5
 \<and> (24::int) \<le> 30 \<and> (30::int) < 48 \<and> mirror 30 = Some 89 \<and> Option.bind (mirror 30) mirror = None"
  using mirror_map_halves [of 5] mirror_map_halves [of 30] by auto

text \<open>
  The claim as first stated fails: index 0 is mapped to 23, not into 72..95, and index 24
  is mapped to 95, where the table has no entry, so applying it twice does not give 24 back.
\<close>

theorem mirror_map_counterexample:
  "mirror 0 = Some 23 \<and> \<not> (72 \<le> (23::int) \<and> (23::int) \<le> 95)
 \<and> mirror 24 = Some 95 \<and> Option.bind (mirror 24) mirror \<noteq> Some 24"
  by (simp add: mirror_def TOP_BOTTOM_MIRROR_MAP_def)

section \<open>Background pass\<close>

lemma fill_loop:
  assumes len: "k \<le> int (length (background st))" and k: "0 \<le> k"
    and body: "\<And>i buf. 0 \<le> i \<Longrightarrow> i < k \<Longrightarrow> length buf = length (background st) \<Longrightarrow>
       body i (st\<lparr>background := buf\<rparr>)
         = bindE (store_at buf i (c i)) (\<lambda>b. Inr (st\<lparr>background := b\<rparr>))"
  shows "for_each body [0..k - 1] st
           = Inr (st\<lparr>background := map c [0..k - 1] @ drop (nat k) (background st)\<rparr>)"
  using k len body
proof (induction k rule: int_ge_induct)
  case base
  then show ?case by simp
next
  case (step k)
  let ?buf = "map c [0..k - 1] @ drop (nat k) (background st)"
  have lenbuf: "length ?buf = length (background st)"
    using step.hyps step.prems(1) by simp
  have ih: "for_each body [0..k - 1] st = Inr (st\<lparr>background := ?buf\<rparr>)"
    using step.IH step.prems by simp
  have split: "[0..k] = [0..k - 1] @ [k]"
    using step.hyps upto_rec2 [of 0 k] by simp
  have b: "body k (st\<lparr>background := ?buf\<rparr>)
         = bindE (store_at ?buf k (c k)) (\<lambda>b. Inr (st\<lparr>background := b\<rparr>))"
    using step.prems(2) step.hyps lenbuf by simp
  have st: "store_at ?buf k (c k) = Inr (?buf[nat k := c k])"
    using step.hyps step.prems(1) lenbuf by (simp add: store_at_def)
  have upd: "?buf[nat k := c k] = map c [0..k] @ drop (nat (k + 1)) (background st)"
  proof -
    have l1: "length (map c [0..k - 1]) = nat k" using step.hyps by simp
    have "?buf[nat k := c k] = map c [0..k - 1] @ (drop (nat k) (background st))[0 := c k]"
      using l1 by (simp add: list_update_append)
    also have "(drop (nat k) (background st))[0 := c k] = c k # drop (Suc (nat k)) (background st)"
    proof -
      have "nat k < length (background st)" using step.hyps step.prems(1) by linarith
      then have "drop (nat k) (background st) = background st ! nat k # drop (Suc (nat k)) (background st)"
        by (simp add: Cons_nth_drop_Suc)
      then show ?thesis by simp
    qed
    also have "map c [0..k - 1] @ c k # drop (Suc (nat k)) (background st)
             = map c [0..k] @ drop (nat (k + 1)) (background st)"
      using step.hyps upto_rec2 [of 0 k] by (simp add: nat_add_distrib)
    finally show ?thesis .
  qed
  have "for_each body [0..k] st = bindE (for_each body [0..k - 1] st) (for_each body [k])"
    by (subst split) (rule for_each_append)
  also have "\<dots> = Inr (st\<lparr>background := map c [0..k] @ drop (nat (k + 1)) (background st)\<rparr>)"
    by (simp add: ih b st upd)
  finally show ?case by simp
qed

lemma fill_all:
  assumes "buffers_allocated st"
    and body: "\<And>i buf. 0 \<le> i \<Longrightarrow> i < numLeds st \<Longrightarrow> length buf = length (background st) \<Longrightarrow>
       body i (st\<lparr>background := buf\<rparr>)
         = bindE (store_at buf i (c i)) (\<lambda>b. Inr (st\<lparr>background := b\<rparr>))"
  shows "for_each body [0..numLeds st - 1] st = Inr (st\<lparr>background := map c [0..numLeds st - 1]\<rparr>)"
proof -
  have "for_each body [0..numLeds st - 1] st
           = Inr (st\<lparr>background := map c [0..numLeds st - 1] @ drop (nat (numLeds st)) (background st)\<rparr>)"
    using assms by (intro fill_loop) (simp_all add: buffers_allocated_def)
  then show ?thesis using assms(1) by (simp add: buffers_allocated_def)
qed

lemma length_COLOR_PHASE: "length COLOR_PHASE = 64"
  by (simp add: COLOR_PHASE_def)

lemma phase_index_ok:
  assumes "0 \<le> (i::int)" "0 \<le> start" "0 \<le> len"
  shows "0 \<le> (((i + start) * 64) sdiv len) smod 64 \<and> (((i + start) * 64) sdiv len) smod 64 < 64"
proof -
  have a: "0 \<le> (i + start) * 64" using assms by simp
  then have "((i + start) * 64) sdiv len = ((i + start) * 64) div len"
    using assms(3) by (rule sdiv_nonneg_eq)
  moreover have "0 \<le> ((i + start) * 64) div len"
    using a assms(3) by (simp add: pos_imp_zdiv_nonneg_iff div_int_pos_iff)
  ultimately show ?thesis by (simp add: smod_nonneg_eq)
qed

lemma phase_read:
  assumes "0 \<le> (i::int)" "0 \<le> start" "0 \<le> len"
  shows "table_at COLOR_PHASE ((((i + start) * 64) sdiv len) smod 64)
       = Inr (COLOR_PHASE ! nat ((((i + start) * 64) sdiv len) smod 64))"
  using phase_index_ok [OF assms] by (simp add: table_at_def length_COLOR_PHASE)

lemma renderFlatBackground_eq:
  assumes "buffers_allocated st"
  shows "renderFlatBackground st = Inr (st\<lparr>background := map (\<lambda>i. flat_colour st) [0..numLeds st - 1]\<rparr>)"
  unfolding renderFlatBackground_def
  by (rule fill_all [OF assms]) (simp add: storeBackground_def flat_colour_def)

lemma renderRainbowBackground_eq:
  assumes "buffers_allocated st" "numLeds st \<noteq> 0"
  shows "renderRainbowBackground st = Inr (st\<lparr>background := map (rainbow_colour st) [0..numLeds st - 1]\<rparr>)"
proof -
  have "for_each (\<lambda>i t. storeBackground i ((bgHue t + i * (255 sdiv numLeds st)) smod 256)
                                (bgSat t) (bgBright t) t) [0..numLeds st - 1] st
      = Inr (st\<lparr>background := map (rainbow_colour st) [0..numLeds st - 1]\<rparr>)"
    by (rule fill_all [OF assms(1)]) (simp add: storeBackground_def rainbow_colour_def)
  then show ?thesis using assms(2) by (simp add: renderRainbowBackground_def Let_def)
qed

lemma renderSinusoidBackground_eq:
  assumes "buffers_allocated st" "bgLedLength st \<noteq> 0" "0 \<le> bgLedStart st" "0 \<le> bgLedLength st"
  shows "renderSinusoidBackground st = Inr (st\<lparr>background := map (sinusoid_colour st) [0..numLeds st - 1]\<rparr>)"
proof -
  have "for_each (\<lambda>i st.
               let cphaseIdx = (((i + bgLedStart st) * 64) sdiv bgLedLength st) smod 64
               in bindE (table_at COLOR_PHASE cphaseIdx)
                    (\<lambda>phase. let h = (256 + bgHue st + (cAmp st * phase) sdiv 100) smod 256
                              in storeBackground i h (bgSat st) (bgBright st) st)) [0..numLeds st - 1] st
      = Inr (st\<lparr>background := map (sinusoid_colour st) [0..numLeds st - 1]\<rparr>)"
    by (rule fill_all [OF assms(1)])
       (simp add: Let_def phase_read assms storeBackground_def sinusoid_colour_def
             del: distrib_right_numeral)
  then show ?thesis using assms(2) by (simp add: renderSinusoidBackground_def)
qed

lemma memcpy_all:
  assumes "0 \<le> n" "length src = nat n" "length dst = nat n"
  shows "memcpy dst src n = Inr src"
  using assms by (simp add: memcpy_def)

lemma updateBackground_eq:
  assumes "buffers_allocated st"
    and "bgMode st = 1 \<longrightarrow> numLeds st \<noteq> 0"
    and "bgMode st = 2 \<longrightarrow> 0 \<le> bgLedStart st \<and> 0 \<le> bgLedLength st"
  shows "updateBackground st = Inr (st\<lparr>background := background_fill st, leds := background_fill st\<rparr>)"
proof -
  have n: "0 \<le> numLeds st" "length (leds st) = nat (numLeds st)"
    using assms(1) by (simp_all add: buffers_allocated_def)
  have fill: "(if bgMode st = 0 then renderFlatBackground st
           else if bgMode st = 1 then renderRainbowBackground st
           else if bgMode st = 2 then renderSinusoidBackground st
           else renderFlatBackground st) = Inr (st\<lparr>background := background_fill st\<rparr>)"
  proof -
    consider "bgMode st = 1" | "bgMode st = 2" "bgLedLength st \<noteq> 0" | "bgMode st = 2" "bgLedLength st = 0"
      | "bgMode st \<noteq> 1" "bgMode st \<noteq> 2" by blast
    then show ?thesis
    proof cases
      case 1
      then show ?thesis using assms
        by (simp add: renderRainbowBackground_eq background_fill_def background_colour_def cong: map_cong)
    next
      case 2
      then show ?thesis using assms
        by (simp add: renderSinusoidBackground_eq background_fill_def background_colour_def cong: map_cong)
    next
      case 3
      then show ?thesis using assms
        by (simp add: renderSinusoidBackground_def renderFlatBackground_eq background_fill_def background_colour_def cong: map_cong)
    next
      case 4
      then show ?thesis using assms
        by (simp add: renderFlatBackground_eq background_fill_def background_colour_def cong: map_cong)
    qed
  qed
  have len: "length (background_fill st) = nat (numLeds st)"
    by (simp add: background_fill_def)
  show ?thesis
    unfolding updateBackground_def fill
    by (simp add: memcpy_all [OF n(1) len n(2)])
qed

lemma background_fill_frameCounter [simp]:
  "background_fill (st\<lparr>frameCounter := c\<rparr>) = background_fill st"
  by (simp add: background_fill_def background_colour_def rainbow_colour_def sinusoid_colour_def
        flat_colour_def cong: map_cong)

lemma length_background_fill [simp]: "length (background_fill st) = nat (numLeds st)"
  by (simp add: background_fill_def)

lemma map_const_upto: "map (\<lambda>i. c) [0..n - 1] = replicate (nat n) c"
  by (simp add: map_replicate_const)

section \<open>Foreground pass: what a mode may change\<close>

lemma only_leds_refl: "only_leds st st"
  unfolding only_leds_def by (rule exI [of _ "leds st"]) simp

lemma only_leds_frame: "only_leds (st\<lparr>lineOffset := lo\<rparr>) t \<Longrightarrow> fg_frame st t"
proof -
  assume "only_leds (st\<lparr>lineOffset := lo\<rparr>) t"
  then obtain l where l: "t = st\<lparr>lineOffset := lo, leds := l\<rparr>" "length l = length (leds st)"
    by (auto simp add: only_leds_def)
  then have "t = st\<lparr>leds := l, lineOffset := lo\<rparr> \<and> length l = length (leds st)" by simp
  then show ?thesis unfolding fg_frame_def by blast
qed

lemma only_leds_frame0: "only_leds st t \<Longrightarrow> fg_frame st t"
  using only_leds_frame [where st = st and lo = "lineOffset st" and t = t] by simp

lemma only_leds_numLeds: "only_leds base t \<Longrightarrow> numLeds t = numLeds base"
  by (auto simp add: only_leds_def)

lemma only_leds_fields:
  "only_leds base t \<Longrightarrow> ffLedStart t = ffLedStart base \<and> ffLedLength t = ffLedLength base"
  by (auto simp add: only_leds_def)

lemma setLED_only_leds:
  assumes "only_leds base t" "numLeds base \<le> int (length (leds base))"
  shows "\<exists>t'. setLED idx h s v t = Inr t' \<and> only_leds base t'"
proof -
  from assms(1) obtain l where l: "t = base\<lparr>leds := l\<rparr>" "length l = length (leds base)"
    by (auto simp add: only_leds_def)
  show ?thesis
    using assms(2) l by (auto simp add: setLED_def store_at_def only_leds_def)
qed

lemma setLED_discards:
  "index < 0 \<or> numLeds st \<le> index \<Longrightarrow> setLED index h s v st = Inr st"
  by (auto simp add: setLED_def)

lemma length_MIRROR: "length TOP_BOTTOM_MIRROR_MAP = 48"
  by (simp add: TOP_BOTTOM_MIRROR_MAP_def)

lemma mirrorLED_only_leds:
  assumes "only_leds base t" "numLeds base \<le> int (length (leds base))"
  shows "\<exists>t'. mirrorLED j b t = Inr t' \<and> only_leds base t'"
proof (cases "j \<ge> 0 \<and> j < 48")
  case True
  then have "table_at TOP_BOTTOM_MIRROR_MAP j = Inr (TOP_BOTTOM_MIRROR_MAP ! nat j)"
    by (simp add: table_at_def length_MIRROR)
  then show ?thesis using True setLED_only_leds [OF assms]
    by (simp add: mirrorLED_def)
next
  case False
  then show ?thesis using assms(1) by (auto simp add: mirrorLED_def)
qed

lemma renderNotesToDrives_frame:
  assumes "buffers_allocated st"
  shows "\<exists>t. renderNotesToDrives st = Inr t \<and> only_leds st t"
proof -
  have n: "numLeds st \<le> int (length (leds st))"
    using assms by (simp add: buffers_allocated_def)
  show ?thesis
    unfolding renderNotesToDrives_def
    by (rule for_each_inv [where I = "only_leds st"])
       (auto simp add: Let_def only_leds_refl intro!: for_each_inv [where I = "only_leds st"] setLED_only_leds [OF _ n])
qed

lemma renderRainbowWheel_frame:
  assumes "buffers_allocated st" "numLeds st \<noteq> 0"
  shows "\<exists>t. renderRainbowWheel st = Inr t \<and> only_leds st t"
proof -
  have n: "numLeds st \<le> int (length (leds st))"
    using assms by (simp add: buffers_allocated_def)
  show ?thesis
    unfolding renderRainbowWheel_def Let_def using assms(2)
    by (auto simp add: only_leds_refl intro!: for_each_inv [where I = "only_leds st"] setLED_only_leds [OF _ n])
qed

lemma renderMovingDots_frame:
  assumes "buffers_allocated st" "numLeds st \<noteq> 0"
  shows "\<exists>t. renderMovingDots st = Inr t \<and> fg_frame st t"
proof (cases "lines st = 0")
  case True
  then show ?thesis using only_leds_frame0 [OF only_leds_refl, of st] by (simp add: renderMovingDots_def)
next
  case False
  let ?base = "st\<lparr>lineOffset := numLeds st sdiv lines st\<rparr>"
  have n: "numLeds ?base \<le> int (length (leds ?base))"
    using assms by (simp add: buffers_allocated_def)
  have "\<exists>t. renderMovingDots st = Inr t \<and> only_leds ?base t"
    unfolding renderMovingDots_def Let_def using False assms(2)
    by (auto intro!: for_each_inv [where I = "only_leds ?base"] setLED_only_leds [OF _ n]
             simp add: only_leds_numLeds only_leds_refl)
  then show ?thesis by (auto intro: only_leds_frame)
qed

lemma comets_led_only_leds:
  assumes "only_leds base (snd cst)" "numLeds base \<le> int (length (leds base))" "numLeds base \<noteq> 0"
  shows "\<exists>r. comets_led line led cst = Inr r \<and> only_leds base (snd r)"
proof -
  have n: "numLeds (snd cst) \<noteq> 0" using assms(1,3) by (simp add: only_leds_numLeds)
  obtain t' where "setLED ((led + line * lineOffset (snd cst)) smod numLeds (snd cst))
      (u8 (ffHue (snd cst))) (u8 (ffSat (snd cst)))
      (u8 ((ffBright (snd cst) * (ffLedLength (snd cst) - fst cst)) sdiv ffLedLength (snd cst))) (snd cst) = Inr t'"
      "only_leds base t'"
    using setLED_only_leds [OF assms(1,2)] by blast
  then show ?thesis using n by (simp add: comets_led_def Let_def)
qed

lemma comets_line_only_leds:
  assumes "only_leds base t" "numLeds base \<le> int (length (leds base))" "numLeds base \<noteq> 0"
  shows "\<exists>t'. comets_line line t = Inr t' \<and> only_leds base t'"
proof -
  have "\<exists>r. for_each (comets_led line) [ffLedStart t..ffLedStart t + ffLedLength t - 1]
             (ffLedLength t - 1, t) = Inr r \<and> only_leds base (snd r)"
  proof (rule for_each_inv [where I = "\<lambda>r. only_leds base (snd r)"])
    show "only_leds base (snd (ffLedLength t - 1, t))" using assms(1) by simp
  next
    fix x and r :: "int \<times> EngineState"
    assume "only_leds base (snd r)"
    then show "\<exists>r'. comets_led line x r = Inr r' \<and> only_leds base (snd r')"
      by (rule comets_led_only_leds [OF _ assms(2,3)])
  qed
  then show ?thesis by (auto simp add: comets_line_def)
qed

lemma renderComets_frame:
  assumes "buffers_allocated st" "numLeds st \<noteq> 0"
  shows "\<exists>t. renderComets st = Inr t \<and> fg_frame st t"
proof (cases "lines st = 0 \<or> ffLedLength st = 0")
  case True
  then show ?thesis using only_leds_frame0 [OF only_leds_refl, of st] by (auto simp add: renderComets_def)
next
  case False
  let ?base = "st\<lparr>lineOffset := numLeds st sdiv lines st\<rparr>"
  have n: "numLeds ?base \<le> int (length (leds ?base))" "numLeds ?base \<noteq> 0"
    using assms by (simp_all add: buffers_allocated_def)
  have "\<exists>t. for_each comets_line [0..lines ?base - 1] ?base = Inr t \<and> only_leds ?base t"
  proof (rule for_each_inv [where I = "only_leds ?base"])
    show "only_leds ?base ?base" by (rule only_leds_refl)
  next
    fix x t
    assume "only_leds ?base t"
    then show "\<exists>t'. comets_line x t = Inr t' \<and> only_leds ?base t'"
      by (rule comets_line_only_leds [OF _ n])
  qed
  then show ?thesis using False by (auto simp add: renderComets_def Let_def intro: only_leds_frame)
qed

lemma renderBackAndForth_frame:
  assumes "buffers_allocated st" "0 \<le> ffLedLength st"
  shows "\<exists>t. renderBackAndForth st = Inr t \<and> only_leds st t"
proof (cases "ffLedLength st = 0")
  case True
  then show ?thesis by (simp add: renderBackAndForth_def only_leds_refl)
next
  case False
  have n: "numLeds st \<le> int (length (leds st))"
    using assms by (simp add: buffers_allocated_def)
  show ?thesis
    unfolding renderBackAndForth_def Let_def using False assms(2)
    by (auto intro!: for_each_inv [where I = "only_leds st"] setLED_only_leds [OF _ n]
             simp add: only_leds_refl)
qed

lemma renderMoveStartLED_frame:
  assumes "buffers_allocated st" "numLeds st \<noteq> 0"
  shows "\<exists>t. renderMoveStartLED st = Inr t \<and> fg_frame st t"
proof (cases "lines st = 0")
  case True
  then show ?thesis using only_leds_frame0 [OF only_leds_refl, of st] by (simp add: renderMoveStartLED_def)
next
  case False
  let ?base = "st\<lparr>lineOffset := numLeds st sdiv lines st\<rparr>"
  have n: "numLeds ?base \<le> int (length (leds ?base))"
    using assms by (simp add: buffers_allocated_def)
  have "\<exists>t. renderMoveStartLED st = Inr t \<and> only_leds ?base t"
    unfolding renderMoveStartLED_def Let_def using False assms(2)
    by (auto intro!: for_each_inv [where I = "only_leds ?base"] setLED_only_leds [OF _ n]
             simp add: only_leds_numLeds only_leds_refl)
  then show ?thesis by (auto intro: only_leds_frame)
qed

lemma renderColorSinusoid_frame:
  assumes "buffers_allocated st" "0 \<le> ffLedStart st" "0 \<le> ffLedLength st"
  shows "\<exists>t. renderColorSinusoid st = Inr t \<and> only_leds st t"
proof (cases "ffLedLength st = 0")
  case True
  then show ?thesis by (simp add: renderColorSinusoid_def only_leds_refl)
next
  case False
  have n: "numLeds st \<le> int (length (leds st))"
    using assms by (simp add: buffers_allocated_def)
  have step: "\<exists>t'. bindE (table_at COLOR_PHASE ((((i + ffLedStart t) * 64) sdiv ffLedLength t) smod 64))
                    (\<lambda>phase. setLED i (u8 ((256 + ffHue t + (cAmp t * phase) sdiv 100) smod 256))
                                 (u8 (ffSat t)) (u8 (ffBright t)) t) = Inr t' \<and> only_leds st t'"
    if "i \<in> set [0..numLeds st - 1]" "only_leds st t" for i t
  proof -
    have "0 \<le> i" using that(1) by simp
    then have "table_at COLOR_PHASE ((((i + ffLedStart t) * 64) sdiv ffLedLength t) smod 64)
        = Inr (COLOR_PHASE ! nat ((((i + ffLedStart t) * 64) sdiv ffLedLength t) smod 64))"
      using assms(2,3) only_leds_fields [OF that(2)] by (intro phase_read) simp_all
    then show ?thesis using setLED_only_leds [OF that(2) n] by simp
  qed
  have "\<exists>t. for_each (\<lambda>i t. bindE (table_at COLOR_PHASE ((((i + ffLedStart t) * 64) sdiv ffLedLength t) smod 64))
                    (\<lambda>phase. setLED i (u8 ((256 + ffHue t + (cAmp t * phase) sdiv 100) smod 256))
                                 (u8 (ffSat t)) (u8 (ffBright t)) t)) [0..numLeds st - 1] st = Inr t \<and> only_leds st t"
    by (rule for_each_inv [where I = "only_leds st"]) (simp add: only_leds_refl, rule step)
  then show ?thesis
    unfolding renderColorSinusoid_def Let_def using False by simp
qed

lemma renderFlashLights_frame:
  assumes "buffers_allocated st" "numLeds st \<noteq> 0"
  shows "\<exists>t. renderFlashLights rnd st = Inr t \<and> only_leds st t"
proof -
  have n: "numLeds st \<le> int (length (leds st))"
    using assms by (simp add: buffers_allocated_def)
  show ?thesis using assms(2) setLED_only_leds [OF only_leds_refl n]
    by (simp add: renderFlashLights_def Let_def)
qed

lemma wave_step:
  assumes "only_leds base t" "numLeds base \<le> int (length (leds base))"
  shows "\<exists>t'. bindE (setLED i1 h1 s1 v1 t)
              (\<lambda>t1. bindE (setLED (i2 t1) (h2 t1) (s2 t1) (v2 t1) t1)
              (\<lambda>t2. bindE (mirrorLED (j1 t2) (b1 t2) t2)
              (\<lambda>t3. mirrorLED (j2 t2 t3) (b2 t2 t3) t3))) = Inr t' \<and> only_leds base t'"
proof -
  obtain t1 where t1: "setLED i1 h1 s1 v1 t = Inr t1" "only_leds base t1"
    using setLED_only_leds [OF assms] by blast
  obtain t2 where t2: "setLED (i2 t1) (h2 t1) (s2 t1) (v2 t1) t1 = Inr t2" "only_leds base t2"
    using setLED_only_leds [OF t1(2) assms(2)] by blast
  obtain t3 where t3: "mirrorLED (j1 t2) (b1 t2) t2 = Inr t3" "only_leds base t3"
    using mirrorLED_only_leds [OF t2(2) assms(2)] by blast
  obtain t4 where t4: "mirrorLED (j2 t2 t3) (b2 t2 t3) t3 = Inr t4" "only_leds base t4"
    using mirrorLED_only_leds [OF t3(2) assms(2)] by blast
  show ?thesis using t1 t2 t3 t4 by simp
qed

lemma renderOceanWaves_frame:
  assumes "buffers_allocated st"
  shows "\<exists>t. renderOceanWaves st = Inr t \<and> only_leds st t"
proof -
  have n: "numLeds st \<le> int (length (leds st))"
    using assms by (simp add: buffers_allocated_def)
  show ?thesis
  proof (cases "ocean_amp st \<le> 0")
    case True
    then show ?thesis by (simp add: renderOceanWaves_def Let_def only_leds_refl)
  next
    case False
    then show ?thesis
      unfolding renderOceanWaves_def Let_def
      by (simp only: if_False) (rule for_each_inv [where I = "only_leds st"], rule only_leds_refl, rule wave_step [OF _ n])
  qed
qed

lemma renderOpposingWaves_frame:
  assumes "buffers_allocated st"
  shows "\<exists>t. renderOpposingWaves st = Inr t \<and> only_leds st t"
proof -
  have n: "numLeds st \<le> int (length (leds st))"
    using assms by (simp add: buffers_allocated_def)
  show ?thesis
  proof (cases "opposing_amp st \<le> 0")
    case True
    then show ?thesis by (simp add: renderOpposingWaves_def Let_def only_leds_refl)
  next
    case False
    then show ?thesis
      unfolding renderOpposingWaves_def Let_def
      by (simp only: if_False) (rule for_each_inv [where I = "only_leds st"], rule only_leds_refl, rule wave_step [OF _ n])
  qed
qed

lemma renderForeground_frame:
  assumes "buffers_allocated st" "numLeds st \<noteq> 0" "0 \<le> ffLedStart st" "0 \<le> ffLedLength st"
  shows "\<exists>t. renderForeground rnd st = Inr t \<and> fg_frame st t"
proof -
  note ol = only_leds_frame0
  consider "ffMode st = 0" | "ffMode st = 1" | "ffMode st = 2" | "ffMode st = 3" | "ffMode st = 4"
    | "ffMode st = 5" | "ffMode st = 6" | "ffMode st = 7" | "ffMode st = 8" | "ffMode st = 9"
    | "ffMode st < 0 \<or> 9 < ffMode st" using mode_cases [of "ffMode st"] by blast
  then show ?thesis
  proof cases
    case 1 then show ?thesis using renderNotesToDrives_frame [OF assms(1)]
      by (auto simp add: renderForeground_def intro: ol)
  next
    case 2 then show ?thesis using renderRainbowWheel_frame [OF assms(1,2)]
      by (auto simp add: renderForeground_def intro: ol)
  next
    case 3 then show ?thesis using renderMovingDots_frame [OF assms(1,2)]
      by (simp add: renderForeground_def)
  next
    case 4 then show ?thesis using renderComets_frame [OF assms(1,2)]
      by (simp add: renderForeground_def)
  next
    case 5 then show ?thesis using renderBackAndForth_frame [OF assms(1,4)]
      by (auto simp add: renderForeground_def intro: ol)
  next
    case 6 then show ?thesis using renderMoveStartLED_frame [OF assms(1,2)]
      by (simp add: renderForeground_def)
  next
    case 7 then show ?thesis using renderColorSinusoid_frame [OF assms(1,3,4)]
      by (auto simp add: renderForeground_def intro: ol)
  next
    case 8 then show ?thesis using renderFlashLights_frame [OF assms(1,2), of rnd]
      by (auto simp add: renderForeground_def intro: ol)
  next
    case 9 then show ?thesis using renderOceanWaves_frame [OF assms(1)]
      by (auto simp add: renderForeground_def intro: ol)
  next
    case 10 then show ?thesis using renderOpposingWaves_frame [OF assms(1)]
      by (auto simp add: renderForeground_def intro: ol)
  next
    case 11 then show ?thesis using ol [OF only_leds_refl, of st]
      by (auto simp add: renderForeground_def)
  qed
qed

lemma renderForeground_only_leds:
  assumes "buffers_allocated st" "numLeds st \<noteq> 0" "0 \<le> ffLedStart st" "0 \<le> ffLedLength st"
    and "ffMode st \<noteq> 2" "ffMode st \<noteq> 3" "ffMode st \<noteq> 5"
  shows "\<exists>t. renderForeground rnd st = Inr t \<and> only_leds st t"
proof -
  consider "ffMode st = 0" | "ffMode st = 1" | "ffMode st = 4"
    | "ffMode st = 6" | "ffMode st = 7" | "ffMode st = 8" | "ffMode st = 9"
    | "ffMode st < 0 \<or> 9 < ffMode st" using mode_cases [of "ffMode st"] assms(5-7) by blast
  then show ?thesis
  proof cases
    case 1 then show ?thesis using renderNotesToDrives_frame [OF assms(1)]
      by (simp add: renderForeground_def)
  next
    case 2 then show ?thesis using renderRainbowWheel_frame [OF assms(1,2)]
      by (simp add: renderForeground_def)
  next
    case 3 then show ?thesis using renderBackAndForth_frame [OF assms(1,4)]
      by (simp add: renderForeground_def)
  next
    case 4 then show ?thesis using renderColorSinusoid_frame [OF assms(1,3,4)]
      by (simp add: renderForeground_def)
  next
    case 5 then show ?thesis using renderFlashLights_frame [OF assms(1,2), of rnd]
      by (simp add: renderForeground_def)
  next
    case 6 then show ?thesis using renderOceanWaves_frame [OF assms(1)]
      by (simp add: renderForeground_def)
  next
    case 7 then show ?thesis using renderOpposingWaves_frame [OF assms(1)]
      by (simp add: renderForeground_def)
  next
    case 8 then show ?thesis using only_leds_refl [of st]
      by (auto simp add: renderForeground_def)
  qed
qed

section \<open>A whole frame\<close>

lemma render_eq:
  assumes "buffers_allocated st"
    and "bgMode st = 1 \<longrightarrow> numLeds st \<noteq> 0"
    and "bgMode st = 2 \<longrightarrow> 0 \<le> bgLedStart st \<and> 0 \<le> bgLedLength st"
  shows "render rnd st = renderForeground rnd
           (st\<lparr>frameCounter := frameCounter st + 1,
               background := background_fill st, leds := background_fill st\<rparr>)"
proof -
  let ?s1 = "st\<lparr>frameCounter := frameCounter st + 1\<rparr>"
  have "buffers_allocated ?s1" using assms(1) by (simp add: buffers_allocated_def)
  then have "updateBackground ?s1 = Inr (?s1\<lparr>background := background_fill ?s1, leds := background_fill ?s1\<rparr>)"
    using assms(2,3) by (intro updateBackground_eq) simp_all
  then show ?thesis by (simp add: render_def Let_def)
qed

lemma render_frame:
  assumes "buffers_allocated st" "1 \<le> numLeds st" "windows_nonneg st"
  shows "\<exists>l lo. render rnd st = Inr (st\<lparr>frameCounter := frameCounter st + 1,
               background := background_fill st, leds := l, lineOffset := lo\<rparr>)
             \<and> length l = nat (numLeds st)"
proof -
  let ?s2 = "st\<lparr>frameCounter := frameCounter st + 1,
               background := background_fill st, leds := background_fill st\<rparr>"
  have w: "0 \<le> ffLedStart st" "0 \<le> ffLedLength st" "0 \<le> bgLedStart st" "0 \<le> bgLedLength st"
    using assms(3) by (simp_all add: windows_nonneg_def)
  have r: "render rnd st = renderForeground rnd ?s2"
    using assms(1,2) w by (intro render_eq) simp_all
  have "buffers_allocated ?s2" using assms(1) by (simp add: buffers_allocated_def)
  then have "\<exists>t. renderForeground rnd ?s2 = Inr t \<and> fg_frame ?s2 t"
    using assms(2) w by (intro renderForeground_frame) simp_all
  then obtain t l lo where t: "renderForeground rnd ?s2 = Inr t"
      "t = ?s2\<lparr>leds := l, lineOffset := lo\<rparr>" "length l = length (leds ?s2)"
    unfolding fg_frame_def by blast
  have "render rnd st = Inr (st\<lparr>frameCounter := frameCounter st + 1,
               background := background_fill st, leds := l, lineOffset := lo\<rparr>)
         \<and> length l = nat (numLeds st)"
    using r t by simp
  then show ?thesis by blast
qed

text \<open>
  Claim C10. Every LED store of the foreground modes goes through \<open>setLED\<close>, which
  leaves the engine as it is for an index below 0 or from \<open>numLeds\<close> on; the background
  modes store at 0..\<open>numLeds - 1\<close>. Hence, for an engine with at least one LED, allocated
  buffers and non-negative window parameters, \<open>render\<close> returns without a fault (no store
  outside a buffer, no division by zero, no read outside a table), both buffers keep their
  \<open>numLeds\<close> elements, and nothing but the two buffers, \<open>lineOffset\<close> and the frame
  counter has changed.
\<close>

theorem render_within_buffer:
  assumes "buffers_allocated st" "1 \<le> numLeds st" "windows_nonneg st"
  shows "(\<exists>t. render rnd st = Inr t
            \<and> length (leds t) = nat (numLeds st) \<and> length (background t) = nat (numLeds st)
            \<and> t = st\<lparr>leds := leds t, background := background t,
                     lineOffset := lineOffset t, frameCounter := frameCounter st + 1\<rparr>)
       \<and> (\<forall>index h s v. index < 0 \<or> numLeds st \<le> index \<longrightarrow> setLED index h s v st = Inr st)"
proof -
  obtain l lo where "render rnd st = Inr (st\<lparr>frameCounter := frameCounter st + 1,
               background := background_fill st, leds := l, lineOffset := lo\<rparr>)"
      "length l = nat (numLeds st)"
    using render_frame [OF assms, of rnd] by blast
  then have "\<exists>t. render rnd st = Inr t
            \<and> length (leds t) = nat (numLeds st) \<and> length (background t) = nat (numLeds st)
            \<and> t = st\<lparr>leds := leds t, background := background t,
                     lineOffset := lineOffset t, frameCounter := frameCounter st + 1\<rparr>"
    by simp
  then show ?thesis by (simp add: setLED_discards)
qed

text \<open>
  Two engines where a mode computes indices beyond the strip: Ocean Waves with \<open>pan\<close> and
  \<open>ffLedLength\<close> at 127 on 108 LEDs, and Notes-to-Drives on a strip of 50 LEDs.
\<close>

theorem render_within_buffer_witness:
  "buffers_allocated extreme_pan \<and> 1 \<le> numLeds extreme_pan \<and> windows_nonneg extreme_pan
   \<and> wave_tMiddle extreme_pan + (ocean_amp extreme_pan - 1) \<ge> numLeds extreme_pan
   \<and> (\<exists>t. render uint extreme_pan = Inr t \<and> length (leds t) = 108)
   \<and> buffers_allocated (initialState 50) \<and> 1 \<le> numLeds (initialState 50)
   \<and> windows_nonneg (initialState 50) \<and> ffMode (initialState 50) = 0
   \<and> (\<exists>t. render uint (initialState 50) = Inr t \<and> length (leds t) = 50)"
proof -
  have a: "buffers_allocated extreme_pan" "1 \<le> numLeds extreme_pan" "windows_nonneg extreme_pan"
    by (simp_all add: extreme_pan_def buffers_allocated_def windows_nonneg_def handleControlChange_def initialState_def)
  have b: "wave_tMiddle extreme_pan + (ocean_amp extreme_pan - 1) \<ge> numLeds extreme_pan"
    by (simp add: extreme_pan_def handleControlChange_def initialState_def wave_tMiddle_def ocean_amp_def Let_def)
  have c: "numLeds extreme_pan = 108"
    by (simp add: extreme_pan_def handleControlChange_def initialState_def)
  have d: "buffers_allocated (initialState 50)" "1 \<le> numLeds (initialState 50)"
    "windows_nonneg (initialState 50)"
    by (simp_all add: buffers_allocated_def windows_nonneg_def initialState_def)
  have e: "ffMode (initialState 50) = 0" "numLeds (initialState 50) = 50"
    by (simp_all add: initialState_def)
  show ?thesis
    using a b c d e render_within_buffer [OF a, of uint] render_within_buffer [OF d, of uint]
    by auto
qed

text \<open>
  Claim C8. A background selector outside 0..2 gives the flat fill in both buffers: every
  LED is \<open>(bgHue, bgSat, bgBright)\<close>. A foreground selector outside 0..9 makes the
  foreground pass return the engine unchanged, so after \<open>render\<close> the LED buffer equals the
  background. In both cases \<open>render\<close> returns without a fault.
\<close>

theorem out_of_range_selectors:
  assumes "buffers_allocated st"
  shows "(bgMode st < 0 \<or> 2 < bgMode st \<longrightarrow>
            updateBackground st
              = Inr (st\<lparr>background := replicate (nat (numLeds st)) (flat_colour st),
                        leds := replicate (nat (numLeds st)) (flat_colour st)\<rparr>))
       \<and> (ffMode st < 0 \<or> 9 < ffMode st \<longrightarrow> renderForeground rnd st = Inr st)
       \<and> (ffMode st < 0 \<or> 9 < ffMode st \<longrightarrow> 1 \<le> numLeds st \<longrightarrow> windows_nonneg st \<longrightarrow>
            (\<exists>t. render rnd st = Inr t \<and> leds t = background t \<and> background t = background_fill st))
       \<and> ((bgMode st < 0 \<or> 2 < bgMode st) \<and> (ffMode st < 0 \<or> 9 < ffMode st) \<longrightarrow>
            (\<exists>t. render rnd st = Inr t \<and> leds t = replicate (nat (numLeds st)) (flat_colour st)
                 \<and> background t = replicate (nat (numLeds st)) (flat_colour st)))"
proof -
  have flat: "background_fill st = replicate (nat (numLeds st)) (flat_colour st)"
    if "bgMode st < 0 \<or> 2 < bgMode st"
  proof -
    have "background_colour st = (\<lambda>i. flat_colour st)"
      using that by (auto simp add: background_colour_def)
    then show ?thesis by (simp add: background_fill_def map_const_upto)
  qed
  have p1: "updateBackground st
              = Inr (st\<lparr>background := replicate (nat (numLeds st)) (flat_colour st),
                        leds := replicate (nat (numLeds st)) (flat_colour st)\<rparr>)"
    if "bgMode st < 0 \<or> 2 < bgMode st"
    using updateBackground_eq [OF assms] that flat by auto
  have p2: "renderForeground rnd t = Inr t" if "ffMode t < 0 \<or> 9 < ffMode t" for t
    using that by (auto simp add: renderForeground_def)
  have p3: "\<exists>t. render rnd st = Inr t \<and> leds t = background t \<and> background t = background_fill st"
    if "ffMode st < 0 \<or> 9 < ffMode st" and bg: "bgMode st = 1 \<longrightarrow> numLeds st \<noteq> 0"
       "bgMode st = 2 \<longrightarrow> 0 \<le> bgLedStart st \<and> 0 \<le> bgLedLength st"
  proof -
    let ?s2 = "st\<lparr>frameCounter := frameCounter st + 1,
               background := background_fill st, leds := background_fill st\<rparr>"
    have "render rnd st = renderForeground rnd ?s2" using assms bg by (rule render_eq)
    also have "\<dots> = Inr ?s2" using that(1) by (intro p2) simp
    finally show ?thesis by simp
  qed
  have p3': "\<exists>t. render rnd st = Inr t \<and> leds t = background t \<and> background t = background_fill st"
    if "ffMode st < 0 \<or> 9 < ffMode st" "1 \<le> numLeds st" "windows_nonneg st"
    using that by (intro p3) (simp_all add: windows_nonneg_def)
  have p4: "\<exists>t. render rnd st = Inr t \<and> leds t = replicate (nat (numLeds st)) (flat_colour st)
                 \<and> background t = replicate (nat (numLeds st)) (flat_colour st)"
    if "bgMode st < 0 \<or> 2 < bgMode st" "ffMode st < 0 \<or> 9 < ffMode st"
  proof -
    have "\<exists>t. render rnd st = Inr t \<and> leds t = background t \<and> background t = background_fill st"
      using that by (intro p3) auto
    then show ?thesis using flat [OF that(1)] by auto
  qed
  show ?thesis using p1 p2 [of st] p3' p4 by blast
qed

theorem out_of_range_selectors_witness:
  "buffers_allocated odd_selectors \<and> 2 < bgMode odd_selectors \<and> 9 < ffMode odd_selectors
   \<and> 1 \<le> numLeds odd_selectors \<and> windows_nonneg odd_selectors
   \<and> updateBackground odd_selectors
       = Inr (odd_selectors\<lparr>background := replicate 108 \<lparr>hsv_h = 0, hsv_s = 200, hsv_v = 0\<rparr>,
                             leds := replicate 108 \<lparr>hsv_h = 0, hsv_s = 200, hsv_v = 0\<rparr>\<rparr>)
   \<and> renderForeground (\<lambda>_. 0) odd_selectors = Inr odd_selectors
   \<and> (\<exists>t. render (\<lambda>_. 0) odd_selectors = Inr t
          \<and> leds t = replicate 108 \<lparr>hsv_h = 0, hsv_s = 200, hsv_v = 0\<rparr>)"
proof -
  have f: "numLeds odd_selectors = 108" "bgMode odd_selectors = 77" "ffMode odd_selectors = 42"
    "flat_colour odd_selectors = \<lparr>hsv_h = 0, hsv_s = 200, hsv_v = 0\<rparr>"
    by (simp_all add: odd_selectors_def handleControlChange_def initialState_def flat_colour_def u8_def)
  have a: "buffers_allocated odd_selectors" "windows_nonneg odd_selectors"
    by (simp_all add: odd_selectors_def handleControlChange_def initialState_def
          buffers_allocated_def windows_nonneg_def)
  show ?thesis
    using out_of_range_selectors [OF a(1), of "\<lambda>_. 0"] a by (auto simp add: f)
qed

section \<open>Rendering twice\<close>

text \<open>
  No mode but Flash reads the frame counter: setting the counter before a mode runs and
  after it give the same engine.
\<close>

lemma setLED_fc: "setLED idx h s v (fc c t) = map_sum id (fc c) (setLED idx h s v t)"
  by (simp add: setLED_def store_at_def)

lemma mirrorLED_fc: "mirrorLED j b (fc c t) = map_sum id (fc c) (mirrorLED j b t)"
  by (cases "table_at TOP_BOTTOM_MIRROR_MAP j") (simp_all add: mirrorLED_def setLED_fc)

lemma renderNotesToDrives_fc:
  "renderNotesToDrives (fc c st) = map_sum id (fc c) (renderNotesToDrives st)"
  unfolding renderNotesToDrives_def Let_def
  by (rule for_each_commute) (simp add: for_each_commute setLED_fc)

lemma renderRainbowWheel_fc:
  "renderRainbowWheel (fc c st) = map_sum id (fc c) (renderRainbowWheel st)"
  unfolding renderRainbowWheel_def Let_def
  by (simp add: for_each_commute setLED_fc)

lemma renderMovingDots_fc:
  "renderMovingDots (fc c st) = map_sum id (fc c) (renderMovingDots st)"
proof (cases "lines st = 0")
  case True
  then show ?thesis by (simp add: renderMovingDots_def)
next
  case False
  then show ?thesis
    unfolding renderMovingDots_def Let_def
    by simp (rule for_each_commute', simp, simp add: for_each_commute setLED_fc)
qed

lemma comets_led_fc:
  "comets_led line led (map_prod id (fc c) cst) = map_sum id (map_prod id (fc c)) (comets_led line led cst)"
  by (cases "setLED ((led + line * lineOffset (snd cst)) smod numLeds (snd cst))
      (u8 (ffHue (snd cst))) (u8 (ffSat (snd cst)))
      (u8 ((ffBright (snd cst) * (ffLedLength (snd cst) - fst cst)) sdiv ffLedLength (snd cst))) (snd cst)")
     (simp_all add: comets_led_def Let_def setLED_fc)

lemma comets_line_fc:
  "comets_line line (fc c t) = map_sum id (fc c) (comets_line line t)"
proof -
  have "for_each (comets_led line) [ffLedStart t..ffLedStart t + ffLedLength t - 1] (ffLedLength t - 1, fc c t)
      = map_sum id (map_prod id (fc c))
          (for_each (comets_led line) [ffLedStart t..ffLedStart t + ffLedLength t - 1] (ffLedLength t - 1, t))"
    by (rule for_each_commute') (simp, rule comets_led_fc)
  then show ?thesis
    by (cases "for_each (comets_led line) [ffLedStart t..ffLedStart t + ffLedLength t - 1] (ffLedLength t - 1, t)")
       (simp_all add: comets_line_def)
qed

lemma renderComets_fc:
  "renderComets (fc c st) = map_sum id (fc c) (renderComets st)"
proof (cases "lines st = 0 \<or> ffLedLength st = 0")
  case True
  then show ?thesis by (auto simp add: renderComets_def)
next
  case False
  then show ?thesis
    unfolding renderComets_def Let_def
    by simp (rule for_each_commute', simp, rule comets_line_fc)
qed

lemma renderBackAndForth_fc:
  "renderBackAndForth (fc c st) = map_sum id (fc c) (renderBackAndForth st)"
  unfolding renderBackAndForth_def Let_def
  by (simp add: for_each_commute setLED_fc)

lemma renderMoveStartLED_fc:
  "renderMoveStartLED (fc c st) = map_sum id (fc c) (renderMoveStartLED st)"
proof (cases "lines st = 0 \<or> numLeds st = 0")
  case True
  then show ?thesis by (auto simp add: renderMoveStartLED_def)
next
  case False
  then show ?thesis
    unfolding renderMoveStartLED_def Let_def
    by simp (rule for_each_commute', simp, simp add: for_each_commute setLED_fc)
qed

lemma renderColorSinusoid_fc:
  "renderColorSinusoid (fc c st) = map_sum id (fc c) (renderColorSinusoid st)"
proof -
  have b: "bindE (table_at COLOR_PHASE j) (\<lambda>phase. setLED i (hf phase) s v (fc c t))
     = map_sum id (fc c) (bindE (table_at COLOR_PHASE j) (\<lambda>phase. setLED i (hf phase) s v t))" for j i hf s v t
    by (cases "table_at COLOR_PHASE j") (simp_all add: setLED_fc)
  show ?thesis
    unfolding renderColorSinusoid_def Let_def
    by (simp add: for_each_commute b del: distrib_right_numeral)
qed

lemma renderOceanWaves_fc:
  "renderOceanWaves (fc c st) = map_sum id (fc c) (renderOceanWaves st)"
proof (cases "ocean_amp st \<le> 0")
  case True
  then show ?thesis by (simp add: renderOceanWaves_def wave_tMiddle_def ocean_amp_def Let_def)
next
  case False
  have a: "wave_tMiddle (fc c st) = wave_tMiddle st" "ocean_amp (fc c st) = ocean_amp st"
    by (simp_all add: wave_tMiddle_def ocean_amp_def)
  have step: "(let brightness = (ffBright (fc c t) * (amp - p)) sdiv amp
                  in bindE (setLED (tMiddle + p) (u8 (ffHue (fc c t))) (u8 (ffSat (fc c t))) (u8 brightness) (fc c t))
                    (\<lambda>st. bindE (setLED (tMiddle - p) (u8 (ffHue st)) (u8 (ffSat st)) (u8 brightness) st)
                    (\<lambda>st. bindE (mirrorLED (tMiddle + p - 24) brightness st)
                    (\<lambda>st. mirrorLED (tMiddle - p - 24) brightness st))))
       = map_sum id (fc c) (let brightness = (ffBright t * (amp - p)) sdiv amp
                  in bindE (setLED (tMiddle + p) (u8 (ffHue t)) (u8 (ffSat t)) (u8 brightness) t)
                    (\<lambda>st. bindE (setLED (tMiddle - p) (u8 (ffHue st)) (u8 (ffSat st)) (u8 brightness) st)
                    (\<lambda>st. bindE (mirrorLED (tMiddle + p - 24) brightness st)
                    (\<lambda>st. mirrorLED (tMiddle - p - 24) brightness st))))" for t amp p tMiddle
    unfolding Let_def
    by (simp, rule chain_commute [where g = "fc c" and ?m4.0 = "\<lambda>u. mirrorLED (tMiddle - p - 24) ((ffBright t * (amp - p)) sdiv amp)"])
       (simp_all add: setLED_fc mirrorLED_fc)
  show ?thesis
    unfolding renderOceanWaves_def a using False
    by (simp add: Let_def [of "wave_tMiddle st"] Let_def [of "ocean_amp st"]) (rule for_each_commute, rule step)
qed

lemma renderOpposingWaves_fc:
  "renderOpposingWaves (fc c st) = map_sum id (fc c) (renderOpposingWaves st)"
proof (cases "opposing_amp st \<le> 0")
  case True
  then show ?thesis by (simp add: renderOpposingWaves_def wave_tMiddle_def opposing_amp_def Let_def)
next
  case False
  have a: "wave_tMiddle (fc c st) = wave_tMiddle st" "opposing_amp (fc c st) = opposing_amp st"
    by (simp_all add: wave_tMiddle_def opposing_amp_def)
  have step: "bindE (setLED (tMiddle + p) (u8 (ffHue (fc c t))) (u8 (ffSat (fc c t)))
                       (u8 ((ffBright (fc c t) * (amp - p)) sdiv amp)) (fc c t))
                    (\<lambda>st. bindE (setLED (tMiddle - p) (u8 (ffHue st)) (u8 (ffSat st))
                                   (u8 ((ffBright (fc c t) * (amp - p)) sdiv amp)) st)
                    (\<lambda>st. bindE (mirrorLED ((numLeds st - tMiddle) + p - 24) ((ffBright (fc c t) * (amp - p)) sdiv amp) st)
                                (\<lambda>st'. mirrorLED ((numLeds st - tMiddle) - p - 24) ((ffBright (fc c t) * (amp - p)) sdiv amp) st')))
       = map_sum id (fc c) (bindE (setLED (tMiddle + p) (u8 (ffHue t)) (u8 (ffSat t))
                       (u8 ((ffBright t * (amp - p)) sdiv amp)) t)
                    (\<lambda>st. bindE (setLED (tMiddle - p) (u8 (ffHue st)) (u8 (ffSat st))
                                   (u8 ((ffBright t * (amp - p)) sdiv amp)) st)
                    (\<lambda>st. bindE (mirrorLED ((numLeds st - tMiddle) + p - 24) ((ffBright t * (amp - p)) sdiv amp) st)
                                (\<lambda>st'. mirrorLED ((numLeds st - tMiddle) - p - 24) ((ffBright t * (amp - p)) sdiv amp) st'))))"
    for t amp p tMiddle
    by (simp, rule chain_commute [where g = "fc c"
          and ?m4.0 = "\<lambda>u. mirrorLED ((numLeds u - tMiddle) - p - 24) ((ffBright t * (amp - p)) sdiv amp)"])
       (simp_all add: setLED_fc mirrorLED_fc)
  show ?thesis
    unfolding renderOpposingWaves_def Let_def a using False
    by (simp only: if_False) (rule for_each_commute, rule step)
qed

lemma renderForeground_fc:
  assumes "ffMode st \<noteq> 7"
  shows "renderForeground rnd (fc c st) = map_sum id (fc c) (renderForeground rnd st)"
  using assms
  by (simp add: renderForeground_def renderNotesToDrives_fc renderRainbowWheel_fc
        renderMovingDots_fc renderComets_fc renderBackAndForth_fc renderMoveStartLED_fc
        renderColorSinusoid_fc renderOceanWaves_fc renderOpposingWaves_fc)

lemma lineOffset_same: "st\<lparr>lineOffset := lineOffset st\<rparr> = st"
  by simp

lemma renderForeground_lineOffset:
  assumes "buffers_allocated st" "numLeds st \<noteq> 0" "0 \<le> ffLedStart st" "0 \<le> ffLedLength st"
    and "renderForeground rnd st = Inr t"
  shows "renderForeground rnd (st\<lparr>lineOffset := lineOffset t\<rparr>) = Inr t"
proof -
  note r = assms(5)
  consider "ffMode st = 2" "lines st \<noteq> 0" | "ffMode st = 3" "\<not> (lines st = 0 \<or> ffLedLength st = 0)"
    | "ffMode st = 5" "lines st \<noteq> 0"
    | "ffMode st = 2" "lines st = 0" | "ffMode st = 3" "lines st = 0 \<or> ffLedLength st = 0"
    | "ffMode st = 5" "lines st = 0"
    | "ffMode st \<noteq> 2" "ffMode st \<noteq> 3" "ffMode st \<noteq> 5" by blast
  then show ?thesis
  proof cases
    case 1
    then show ?thesis using r by (simp add: renderForeground_def renderMovingDots_def)
  next
    case 2
    then show ?thesis using r by (simp add: renderForeground_def renderComets_def)
  next
    case 3
    then show ?thesis using r by (simp add: renderForeground_def renderMoveStartLED_def)
  next
    case 4
    then have "t = st" using r by (simp add: renderForeground_def renderMovingDots_def)
    then show ?thesis using r by (simp only: lineOffset_same)
  next
    case 5
    then have "t = st" using r by (auto simp add: renderForeground_def renderComets_def)
    then show ?thesis using r by (simp only: lineOffset_same)
  next
    case 6
    then have "t = st" using r by (simp add: renderForeground_def renderMoveStartLED_def)
    then show ?thesis using r by (simp only: lineOffset_same)
  next
    case 7
    then obtain t' where "renderForeground rnd st = Inr t'" "only_leds st t'"
      using renderForeground_only_leds [OF assms(1-4), of rnd] by blast
    then have "lineOffset t = lineOffset st" using r by (auto simp add: only_leds_def)
    then show ?thesis using r by (simp only: lineOffset_same)
  qed
qed

lemma render_twice:
  assumes "buffers_allocated st" "1 \<le> numLeds st" "windows_nonneg st" "ffMode st \<noteq> 7"
  shows "\<exists>s1 s2. render rnd st = Inr s1 \<and> render rnd s1 = Inr s2 \<and> leds s2 = leds s1"
proof -
  let ?bf = "background_fill st"
  let ?s2 = "st\<lparr>frameCounter := frameCounter st + 1, background := ?bf, leds := ?bf\<rparr>"
  have w: "0 \<le> ffLedStart st" "0 \<le> ffLedLength st" "0 \<le> bgLedStart st" "0 \<le> bgLedLength st"
    using assms(3) by (simp_all add: windows_nonneg_def)
  have r: "render rnd st = renderForeground rnd ?s2"
    using assms(1,2) w by (intro render_eq) simp_all
  obtain l lo where s1: "render rnd st = Inr (st\<lparr>frameCounter := frameCounter st + 1,
               background := ?bf, leds := l, lineOffset := lo\<rparr>)" "length l = nat (numLeds st)"
    using render_frame [OF assms(1-3), of rnd] by blast
  let ?s1 = "st\<lparr>frameCounter := frameCounter st + 1, background := ?bf, leds := l, lineOffset := lo\<rparr>"
  have fg: "renderForeground rnd ?s2 = Inr ?s1" using r s1 by simp
  have a2: "buffers_allocated ?s2" using assms(1) by (simp add: buffers_allocated_def)
  have "renderForeground rnd (?s2\<lparr>lineOffset := lineOffset ?s1\<rparr>) = Inr ?s1"
    using a2 assms(2) w fg by (intro renderForeground_lineOffset) simp_all
  then have fg2: "renderForeground rnd (?s2\<lparr>lineOffset := lo\<rparr>) = Inr ?s1" by simp
  have a1: "buffers_allocated ?s1" using assms(1) s1(2) by (simp add: buffers_allocated_def)
  have bf1: "background_fill ?s1 = ?bf"
    by (simp add: background_fill_def background_colour_def rainbow_colour_def sinusoid_colour_def
        flat_colour_def cong: map_cong)
  have "render rnd ?s1 = renderForeground rnd
           (?s1\<lparr>frameCounter := frameCounter ?s1 + 1,
               background := background_fill ?s1, leds := background_fill ?s1\<rparr>)"
    using a1 assms(2) w by (intro render_eq) simp_all
  also have "\<dots> = renderForeground rnd (fc (frameCounter st + 1 + 1) (?s2\<lparr>lineOffset := lo\<rparr>))"
  proof -
    have "?s1\<lparr>frameCounter := frameCounter ?s1 + 1, background := ?bf, leds := ?bf\<rparr>
        = fc (frameCounter st + 1 + 1) (?s2\<lparr>lineOffset := lo\<rparr>)"
      by (rule EngineState.equality) simp_all
    then show ?thesis unfolding bf1 by (rule arg_cong)
  qed
  also have "\<dots> = map_sum id (fc (frameCounter st + 1 + 1)) (renderForeground rnd (?s2\<lparr>lineOffset := lo\<rparr>))"
    using assms(4) by (intro renderForeground_fc) simp
  also have "\<dots> = Inr (fc (frameCounter st + 1 + 1) ?s1)"
    unfolding fg2 by simp
  finally have "render rnd ?s1 = Inr (fc (frameCounter st + 1 + 1) ?s1)" .
  then show ?thesis using s1(1) by simp
qed

lemma flash_leds:
  assumes "length l = nat (numLeds t)" "numLeds t \<noteq> 0" "leds t = l"
  shows "\<exists>t'. renderFlashLights rnd t = Inr t'
     \<and> leds t' = (if 0 \<le> rnd (frameCounter t) smod numLeds t \<and> rnd (frameCounter t) smod numLeds t < numLeds t
                  then l[nat (rnd (frameCounter t) smod numLeds t)
                          := \<lparr>hsv_h = u8 (ffHue t), hsv_s = u8 (ffSat t), hsv_v = u8 (ffBright t)\<rparr>]
                  else l)"
  using assms by (auto simp add: renderFlashLights_def Let_def setLED_def store_at_def)

lemma flash_deterministic:
  assumes "buffers_allocated st" "1 \<le> numLeds st" "windows_nonneg st" "ffMode st = 7"
    and "length l = nat (numLeds st)" "length b = nat (numLeds st)"
  shows "\<exists>s1 s1'. render rnd st = Inr s1
           \<and> render rnd (st\<lparr>leds := l, background := b, lineOffset := lo,
                              activeNotes := an, currentNote := cn\<rparr>) = Inr s1'
           \<and> leds s1' = leds s1"
proof -
  let ?st' = "st\<lparr>leds := l, background := b, lineOffset := lo, activeNotes := an, currentNote := cn\<rparr>"
  let ?bf = "background_fill st"
  let ?s2 = "st\<lparr>frameCounter := frameCounter st + 1, background := ?bf, leds := ?bf\<rparr>"
  let ?s2' = "?st'\<lparr>frameCounter := frameCounter ?st' + 1, background := ?bf, leds := ?bf\<rparr>"
  have w: "0 \<le> bgLedStart st" "0 \<le> bgLedLength st"
    using assms(3) by (simp_all add: windows_nonneg_def)
  have bf: "background_fill ?st' = ?bf"
    by (simp add: background_fill_def background_colour_def rainbow_colour_def sinusoid_colour_def
        flat_colour_def cong: map_cong)
  have a': "buffers_allocated ?st'" using assms(2,5,6) by (simp add: buffers_allocated_def)
  have r: "render rnd st = renderFlashLights rnd ?s2"
    using render_eq [of st rnd] assms(1,2,4) w by (simp add: renderForeground_def)
  have "render rnd ?st' = renderForeground rnd
           (?st'\<lparr>frameCounter := frameCounter ?st' + 1,
               background := background_fill ?st', leds := background_fill ?st'\<rparr>)"
    using a' assms(2) w by (intro render_eq) simp_all
  then have r': "render rnd ?st' = renderFlashLights rnd ?s2'"
    unfolding bf using assms(4) by (simp add: renderForeground_def)
  obtain t where t: "renderFlashLights rnd ?s2 = Inr t"
    "leds t = (if 0 \<le> rnd (frameCounter ?s2) smod numLeds ?s2 \<and> rnd (frameCounter ?s2) smod numLeds ?s2 < numLeds ?s2
                  then ?bf[nat (rnd (frameCounter ?s2) smod numLeds ?s2)
                          := \<lparr>hsv_h = u8 (ffHue ?s2), hsv_s = u8 (ffSat ?s2), hsv_v = u8 (ffBright ?s2)\<rparr>]
                  else ?bf)"
    using flash_leds [of ?bf ?s2 rnd] assms(2) by auto
  obtain t' where t': "renderFlashLights rnd ?s2' = Inr t'"
    "leds t' = (if 0 \<le> rnd (frameCounter ?s2') smod numLeds ?s2' \<and> rnd (frameCounter ?s2') smod numLeds ?s2' < numLeds ?s2'
                  then ?bf[nat (rnd (frameCounter ?s2') smod numLeds ?s2')
                          := \<lparr>hsv_h = u8 (ffHue ?s2'), hsv_s = u8 (ffSat ?s2'), hsv_v = u8 (ffBright ?s2')\<rparr>]
                  else ?bf)"
    using flash_leds [of ?bf ?s2' rnd] assms(2) by auto
  have "leds t' = leds t" unfolding t(2) t'(2) by simp
  then show ?thesis using r r' t(1) t'(1) by simp
qed

text \<open>
  Claim C4. In every foreground mode but Flash (7), a second \<open>render\<close> right after the
  first leaves the same LED buffer. In Flash the LED buffer after \<open>render\<close> is determined
  by the parameters and the frame counter: an engine with the same parameters and the same
  counter, whatever its buffers, \<open>lineOffset\<close> and note state, renders the same LED buffer.
\<close>

theorem render_idempotent:
  assumes "buffers_allocated st" "1 \<le> numLeds st" "windows_nonneg st"
  shows "(ffMode st \<noteq> 7 \<longrightarrow>
            (\<exists>s1 s2. render rnd st = Inr s1 \<and> render rnd s1 = Inr s2 \<and> leds s2 = leds s1))
       \<and> (ffMode st = 7 \<longrightarrow>
            (\<forall>l b lo an cn. length l = nat (numLeds st) \<and> length b = nat (numLeds st) \<longrightarrow>
               (\<exists>s1 s1'. render rnd st = Inr s1
                  \<and> render rnd (st\<lparr>leds := l, background := b, lineOffset := lo,
                                    activeNotes := an, currentNote := cn\<rparr>) = Inr s1'
                  \<and> leds s1' = leds s1)))"
  using render_twice [OF assms, of rnd] flash_deterministic [OF assms, of _ _ rnd]
  by blast

theorem render_idempotent_witness:
  "buffers_allocated (initialState 108) \<and> 1 \<le> numLeds (initialState 108)
   \<and> windows_nonneg (initialState 108) \<and> ffMode (initialState 108) \<noteq> 7
   \<and> (\<exists>s1 s2. render uint (initialState 108) = Inr s1 \<and> render uint s1 = Inr s2
          \<and> leds s2 = leds s1)
   \<and> buffers_allocated flash_state \<and> 1 \<le> numLeds flash_state
   \<and> windows_nonneg flash_state \<and> ffMode flash_state = 7
   \<and> length (replicate 108 \<lparr>hsv_h = 1, hsv_s = 2, hsv_v = 3\<rparr>) = nat (numLeds flash_state)
   \<and> (\<exists>s1 s1'. render uint flash_state = Inr s1
          \<and> render uint (flash_state\<lparr>leds := replicate 108 \<lparr>hsv_h = 1, hsv_s = 2, hsv_v = 3\<rparr>,
                                       background := replicate 108 \<lparr>hsv_h = 1, hsv_s = 2, hsv_v = 3\<rparr>,
                                       lineOffset := 9, activeNotes := [], currentNote := []\<rparr>) = Inr s1'
          \<and> leds s1' = leds s1)"
proof -
  have a: "buffers_allocated (initialState 108)" "1 \<le> numLeds (initialState 108)"
    "windows_nonneg (initialState 108)" "ffMode (initialState 108) \<noteq> 7"
    by (simp_all add: initialState_def buffers_allocated_def windows_nonneg_def)
  have b: "buffers_allocated flash_state" "1 \<le> numLeds flash_state"
    "windows_nonneg flash_state" "ffMode flash_state = 7" "numLeds flash_state = 108"
    by (simp_all add: flash_state_def handleControlChange_def initialState_def
          buffers_allocated_def windows_nonneg_def)
  show ?thesis
    using render_idempotent [OF a(1-3), of uint] render_idempotent [OF b(1-3), of uint] a b
    by simp
qed

section \<open>The colour fields stay even\<close>

lemma handleControlChange_inv:
  "engine_inv st \<Longrightarrow> engine_inv (handleControlChange channel control val st)"
  by (simp add: handleControlChange_def engine_inv_def buffers_allocated_def windows_nonneg_def)

lemma handleNoteOn_inv:
  "engine_inv st \<Longrightarrow> engine_inv (handleNoteOn channel note velocity st)"
  by (simp add: handleNoteOn_def Let_def engine_inv_def buffers_allocated_def windows_nonneg_def)

lemma handleNoteOff_inv:
  "engine_inv st \<Longrightarrow> engine_inv (handleNoteOff channel note velocity st)"
  by (simp add: handleNoteOff_def Let_def engine_inv_def buffers_allocated_def windows_nonneg_def)

lemma render_inv:
  assumes "engine_inv st"
  shows "\<exists>t. render rnd st = Inr t \<and> engine_inv t
     \<and> ffHue t = ffHue st \<and> ffSat t = ffSat st \<and> ffBright t = ffBright st
     \<and> bgHue t = bgHue st \<and> bgSat t = bgSat st \<and> bgBright t = bgBright st"
proof -
  have a: "buffers_allocated st" "1 \<le> numLeds st" "windows_nonneg st"
    using assms by (simp_all add: engine_inv_def)
  obtain l lo where "render rnd st = Inr (st\<lparr>frameCounter := frameCounter st + 1,
               background := background_fill st, leds := l, lineOffset := lo\<rparr>)" "length l = nat (numLeds st)"
    using render_frame [OF a, of rnd] by blast
  then show ?thesis using a by (simp add: engine_inv_def buffers_allocated_def windows_nonneg_def)
qed

lemma handleControlChange_even:
  "colours_even st \<Longrightarrow> colours_even (handleControlChange channel control val st)"
  by (simp add: handleControlChange_def colours_even_def)

lemma handleNoteOn_colours:
  "ffHue (handleNoteOn channel note velocity st) = ffHue st
 \<and> ffSat (handleNoteOn channel note velocity st) = ffSat st
 \<and> ffBright (handleNoteOn channel note velocity st) = ffBright st
 \<and> bgHue (handleNoteOn channel note velocity st) = bgHue st
 \<and> bgSat (handleNoteOn channel note velocity st) = bgSat st
 \<and> bgBright (handleNoteOn channel note velocity st) = bgBright st"
  by (simp add: handleNoteOn_def Let_def)

lemma handleNoteOff_colours:
  "ffHue (handleNoteOff channel note velocity st) = ffHue st
 \<and> ffSat (handleNoteOff channel note velocity st) = ffSat st
 \<and> ffBright (handleNoteOff channel note velocity st) = ffBright st
 \<and> bgHue (handleNoteOff channel note velocity st) = bgHue st
 \<and> bgSat (handleNoteOff channel note velocity st) = bgSat st
 \<and> bgBright (handleNoteOff channel note velocity st) = bgBright st"
  by (simp add: handleNoteOff_def Let_def)

lemma doubled_uint: "val \<le> 127 \<Longrightarrow> doubled (uint (val :: 8 word) * 2)"
proof -
  assume "val \<le> 127"
  then have "uint val \<le> 127" by (simp add: word_le_def)
  then have "0 \<le> uint val \<and> uint val \<le> 127 \<and> uint val * 2 = 2 * uint val" by simp
  then show ?thesis unfolding doubled_def by blast
qed

lemma handleControlChange_doubled:
  "val \<le> 127 \<Longrightarrow> colours_doubled st \<Longrightarrow> colours_doubled (handleControlChange channel control val st)"
  by (simp add: handleControlChange_def colours_doubled_def doubled_uint)

lemma apply_event_inv:
  assumes "engine_inv st \<and> colours_even st"
  shows "\<exists>t. apply_event rnd e st = Inr t \<and> (engine_inv t \<and> colours_even t)"
proof (cases e)
  case (ControlChange channel control val)
  then show ?thesis using assms by (simp add: handleControlChange_inv handleControlChange_even)
next
  case (NoteOn channel nt velocity)
  then show ?thesis using assms handleNoteOn_colours [of channel nt velocity st]
    by (simp add: handleNoteOn_inv colours_even_def)
next
  case (NoteOff channel nt velocity)
  then show ?thesis using assms handleNoteOff_colours [of channel nt velocity st]
    by (simp add: handleNoteOff_inv colours_even_def)
next
  case (SetCC ccNumber val)
  then show ?thesis using assms by (simp add: setCC_def handleControlChange_inv handleControlChange_even)
next
  case Render
  then show ?thesis using assms render_inv [of st rnd] by (auto simp add: colours_even_def)
qed

lemma apply_event_doubled:
  assumes "engine_inv st \<and> colours_doubled st" "midi_value e"
  shows "\<exists>t. apply_event rnd e st = Inr t \<and> (engine_inv t \<and> colours_doubled t)"
proof (cases e)
  case (ControlChange channel control val)
  then show ?thesis using assms by (simp add: handleControlChange_inv handleControlChange_doubled)
next
  case (NoteOn channel nt velocity)
  then show ?thesis using assms handleNoteOn_colours [of channel nt velocity st]
    by (simp add: handleNoteOn_inv colours_doubled_def)
next
  case (NoteOff channel nt velocity)
  then show ?thesis using assms handleNoteOff_colours [of channel nt velocity st]
    by (simp add: handleNoteOff_inv colours_doubled_def)
next
  case (SetCC ccNumber val)
  then show ?thesis using assms
    by (simp add: setCC_def handleControlChange_inv handleControlChange_doubled u8_le_127)
next
  case Render
  then show ?thesis using assms render_inv [of st rnd] by (auto simp add: colours_doubled_def)
qed

lemma initialState_inv: "1 \<le> n \<Longrightarrow> engine_inv (initialState n)"
  by (simp add: engine_inv_def buffers_allocated_def windows_nonneg_def initialState_def)

lemma doubled_0: "doubled 0"
  unfolding doubled_def by (rule exI [of _ 0]) simp

lemma doubled_200: "doubled 200"
  unfolding doubled_def by (rule exI [of _ 100]) simp

lemma initialState_doubled: "colours_doubled (initialState n)"
  by (simp add: colours_doubled_def initialState_def doubled_0 doubled_200)

lemma doubled_even: "doubled x \<Longrightarrow> even x"
  by (auto simp add: doubled_def)

lemma colours_doubled_even: "colours_doubled st \<Longrightarrow> colours_even st"
  by (simp add: colours_doubled_def colours_even_def doubled_even)

text \<open>
  Claim C9. The constructor gives an engine whose six colour fields are twice a value in
  0..127. Every sequence of \<open>handleControlChange\<close>, \<open>handleNoteOn\<close>, \<open>handleNoteOff\<close>,
  \<open>setCC\<close> and \<open>render\<close> calls on an engine of at least one LED runs without a fault and
  leaves the six fields even; when the controller values of the sequence are MIDI values
  (0..127), each field is again twice a value in 0..127.
\<close>

theorem colours_stay_even:
  assumes "1 \<le> n"
  shows "LightEngine n = Inr (initialState n) \<and> colours_doubled (initialState n)
       \<and> (\<exists>st. run_events rnd es (initialState n) = Inr st \<and> colours_even st
               \<and> (list_all midi_value es \<longrightarrow> colours_doubled st))"
proof -
  have i: "engine_inv (initialState n)" using assms by (rule initialState_inv)
  have d: "colours_doubled (initialState n)" by (rule initialState_doubled)
  have "\<exists>st. for_each (apply_event rnd) es (initialState n) = Inr st \<and> (engine_inv st \<and> colours_even st)"
    by (rule for_each_inv [where I = "\<lambda>st. engine_inv st \<and> colours_even st"])
       (simp add: i d colours_doubled_even, rule apply_event_inv)
  then obtain st where st: "run_events rnd es (initialState n) = Inr st" "colours_even st"
    by (auto simp add: run_events_def)
  have "colours_doubled st" if "list_all midi_value es"
  proof -
    have m: "\<forall>e \<in> set es. midi_value e" using that by (simp add: list_all_iff)
    have "\<exists>st. for_each (apply_event rnd) es (initialState n) = Inr st \<and> (engine_inv st \<and> colours_doubled st)"
      by (rule for_each_inv [where I = "\<lambda>st. engine_inv st \<and> colours_doubled st"])
         (simp add: i d, rule apply_event_doubled, simp_all add: m)
    then show ?thesis using st(1) by (auto simp add: run_events_def)
  qed
  then show ?thesis using st d assms by (auto simp add: LightEngine_def)
qed

theorem colours_stay_even_witness:
  "(1::int) \<le> 108 \<and> list_all midi_value song
   \<and> (\<exists>st. run_events uint song (initialState 108) = Inr st \<and> colours_even st \<and> colours_doubled st)"
proof -
  have m: "list_all midi_value song" by (simp add: song_def)
  show ?thesis using colours_stay_even [of 108 uint song] m by auto
qed

section \<open>Comets\<close>

lemma comet_idx_range:
  assumes "1 \<le> numLeds st" "1 \<le> lines st" "0 \<le> line" "0 \<le> led"
  shows "0 \<le> comet_idx st line led \<and> comet_idx st line led < numLeds st"
proof -
  have "numLeds st sdiv lines st = numLeds st div lines st"
    using assms(1,2) by (intro sdiv_nonneg_eq) simp_all
  moreover have "0 \<le> numLeds st div lines st"
    using assms(1,2) by (simp add: pos_imp_zdiv_nonneg_iff)
  ultimately have a: "0 \<le> led + line * (numLeds st sdiv lines st)"
    using assms(3,4) by simp
  have "comet_idx st line led = (led + line * (numLeds st sdiv lines st)) mod numLeds st"
    unfolding comet_idx_def using a assms(1) by (intro smod_nonneg_eq) simp_all
  then show ?thesis using assms(1) by simp
qed

lemma comets_led_eq:
  assumes "1 \<le> numLeds st" "1 \<le> lines st" "0 \<le> line" "0 \<le> led" "length l = nat (numLeds st)"
  shows "comets_led line led (c, comet_base st l)
       = Inr (c - 1, comet_base st (l[nat (comet_idx st line led) := comet_colour st c]))"
  using comet_idx_range [OF assms(1-4)] assms(1,5)
  by (simp add: comets_led_def Let_def setLED_def store_at_def comet_idx_def comet_colour_def comet_base_def)

lemma comets_inner:
  assumes "1 \<le> numLeds st" "1 \<le> lines st" "0 \<le> line" "\<forall>led \<in> set xs. 0 \<le> led"
    "length l = nat (numLeds st)"
  shows "\<exists>l'. for_each (comets_led line) xs (c, comet_base st l)
               = Inr (c - int (length xs), comet_base st l')
             \<and> length l' = length l
             \<and> (\<forall>k. k \<notin> (\<lambda>x. nat (comet_idx st line x)) ` set xs \<longrightarrow> l' ! k = l ! k)"
  using assms(4,5)
proof (induction xs arbitrary: c l)
  case Nil
  then show ?case by (intro exI [of _ l]) simp
next
  case (Cons x xs)
  let ?l1 = "l[nat (comet_idx st line x) := comet_colour st c]"
  have x: "0 \<le> x" using Cons.prems(1) by simp
  have step: "comets_led line x (c, comet_base st l) = Inr (c - 1, comet_base st ?l1)"
    using assms(1-3) x Cons.prems(2) by (rule comets_led_eq)
  have "\<exists>l'. for_each (comets_led line) xs (c - 1, comet_base st ?l1)
               = Inr (c - 1 - int (length xs), comet_base st l')
             \<and> length l' = length ?l1
             \<and> (\<forall>k. k \<notin> (\<lambda>x. nat (comet_idx st line x)) ` set xs \<longrightarrow> l' ! k = ?l1 ! k)"
    using Cons.prems by (intro Cons.IH) simp_all
  then obtain l' where l': "for_each (comets_led line) xs (c - 1, comet_base st ?l1)
               = Inr (c - 1 - int (length xs), comet_base st l')"
     "length l' = length ?l1"
     "\<forall>k. k \<notin> (\<lambda>x. nat (comet_idx st line x)) ` set xs \<longrightarrow> l' ! k = ?l1 ! k" by blast
  have "for_each (comets_led line) (x # xs) (c, comet_base st l)
               = Inr (c - int (length (x # xs)), comet_base st l')"
    using step l'(1) by simp
  moreover have "length l' = length l" using l'(2) by simp
  moreover have "\<forall>k. k \<notin> (\<lambda>x. nat (comet_idx st line x)) ` set (x # xs) \<longrightarrow> l' ! k = l ! k"
    using l'(3) by auto
  ultimately show ?case by blast
qed

lemma comets_line_eq:
  "comets_line line (comet_base st l)
     = bindE (for_each (comets_led line) [ffLedStart st..ffLedStart st + ffLedLength st - 1]
                (ffLedLength st - 1, comet_base st l))
         (\<lambda>cst. Inr (snd cst))"
  by (simp add: comets_line_def comet_base_def)

lemma comets_line_untouched:
  assumes "1 \<le> numLeds st" "1 \<le> lines st" "0 \<le> line" "0 \<le> ffLedStart st"
    "length l = nat (numLeds st)"
  shows "\<exists>l'. comets_line line (comet_base st l) = Inr (comet_base st l')
             \<and> length l' = length l
             \<and> (\<forall>j. 0 \<le> j \<and> j \<notin> set (comet_positions st line) \<longrightarrow> l' ! nat j = l ! nat j)"
proof -
  let ?xs = "[ffLedStart st..ffLedStart st + ffLedLength st - 1]"
  have nn: "\<forall>led \<in> set ?xs. 0 \<le> led" using assms(4) by simp
  obtain l' where l': "for_each (comets_led line) ?xs (ffLedLength st - 1, comet_base st l)
               = Inr (ffLedLength st - 1 - int (length ?xs), comet_base st l')"
     "length l' = length l"
     "\<forall>k. k \<notin> (\<lambda>x. nat (comet_idx st line x)) ` set ?xs \<longrightarrow> l' ! k = l ! k"
    using comets_inner [OF assms(1-3) nn assms(5)] by blast
  have "l' ! nat j = l ! nat j" if j: "0 \<le> j" "j \<notin> set (comet_positions st line)" for j
  proof -
    have "nat j \<notin> (\<lambda>x. nat (comet_idx st line x)) ` set ?xs"
    proof
      assume "nat j \<in> (\<lambda>x. nat (comet_idx st line x)) ` set ?xs"
      then obtain x where x: "x \<in> set ?xs" "nat j = nat (comet_idx st line x)" by blast
      have "0 \<le> x" using x(1) nn by blast
      then have "0 \<le> comet_idx st line x" using comet_idx_range [OF assms(1-3)] by blast
      then have "j = comet_idx st line x" using x(2) j(1) by simp
      then show False using x(1) j(2) by (simp add: comet_positions_def)
    qed
    then show ?thesis using l'(3) by blast
  qed
  then show ?thesis using l'(1,2) by (intro exI [of _ l']) (simp add: comets_line_eq)
qed

lemma comets_lines_untouched:
  assumes "1 \<le> numLeds st" "1 \<le> lines st" "\<forall>line \<in> set ls. 0 \<le> line" "0 \<le> ffLedStart st"
    "length l = nat (numLeds st)"
  shows "\<exists>l'. for_each comets_line ls (comet_base st l) = Inr (comet_base st l')
             \<and> length l' = length l
             \<and> (\<forall>j. 0 \<le> j \<and> (\<forall>line \<in> set ls. j \<notin> set (comet_positions st line)) \<longrightarrow> l' ! nat j = l ! nat j)"
  using assms(3,5)
proof (induction ls arbitrary: l)
  case Nil
  then show ?case by (intro exI [of _ l]) simp
next
  case (Cons x ls)
  have x: "0 \<le> x" using Cons.prems(1) by simp
  obtain l1 where l1: "comets_line x (comet_base st l) = Inr (comet_base st l1)" "length l1 = length l"
     "\<forall>j. 0 \<le> j \<and> j \<notin> set (comet_positions st x) \<longrightarrow> l1 ! nat j = l ! nat j"
    using comets_line_untouched [OF assms(1,2) x assms(4) Cons.prems(2)] by blast
  have "\<exists>l'. for_each comets_line ls (comet_base st l1) = Inr (comet_base st l')
             \<and> length l' = length l1
             \<and> (\<forall>j. 0 \<le> j \<and> (\<forall>line \<in> set ls. j \<notin> set (comet_positions st line)) \<longrightarrow> l' ! nat j = l1 ! nat j)"
    using Cons.prems l1(2) by (intro Cons.IH) simp_all
  then obtain l' where l': "for_each comets_line ls (comet_base st l1) = Inr (comet_base st l')"
     "length l' = length l1"
     "\<forall>j. 0 \<le> j \<and> (\<forall>line \<in> set ls. j \<notin> set (comet_positions st line)) \<longrightarrow> l' ! nat j = l1 ! nat j"
    by blast
  have "for_each comets_line (x # ls) (comet_base st l) = Inr (comet_base st l')"
    using l1(1) l'(1) by simp
  moreover have "length l' = length l" using l1(2) l'(2) by simp
  moreover have "\<forall>j. 0 \<le> j \<and> (\<forall>line \<in> set (x # ls). j \<notin> set (comet_positions st line)) \<longrightarrow> l' ! nat j = l ! nat j"
    using l1(3) l'(3) by simp
  ultimately show ?case by blast
qed

lemma leds_comet_base [simp]: "leds (comet_base st l) = l"
  by (simp add: comet_base_def)

lemma comets_line_paints:
  assumes "1 \<le> numLeds st" "1 \<le> lines st" "0 \<le> line" "0 \<le> ffLedStart st" "1 \<le> ffLedLength st"
    "length l = nat (numLeds st)" "distinct (comet_positions st line)"
  shows "\<exists>l'. comets_line line (comet_base st l) = Inr (comet_base st l')
             \<and> length l' = length l
             \<and> l' ! nat (comet_idx st line (ffLedStart st)) = comet_colour st (ffLedLength st - 1)
             \<and> l' ! nat (comet_idx st line (ffLedStart st + ffLedLength st - 1)) = comet_colour st 0"
proof -
  let ?a = "ffLedStart st" and ?L = "ffLedLength st"
  let ?xs = "[?a..?a + ?L - 1]"
  let ?idx = "comet_idx st line"
  have nn: "\<forall>led \<in> set [i..j]. 0 \<le> led" if "?a \<le> i" for i j using assms(4) that by simp
  have rng: "0 \<le> ?idx x \<and> ?idx x < numLeds st" if "0 \<le> x" for x
    using comet_idx_range [OF assms(1-3) that] .
  obtain l' where l': "for_each (comets_led line) ?xs (?L - 1, comet_base st l)
               = Inr (?L - 1 - int (length ?xs), comet_base st l')" "length l' = length l"
    using comets_inner [OF assms(1-3) nn assms(6), of ?a "?a + ?L - 1" "?L - 1"] by auto
  have trail: "l' ! nat (?idx ?a) = comet_colour st (?L - 1)"
  proof -
    let ?l1 = "l[nat (?idx ?a) := comet_colour st (?L - 1)]"
    have split: "?xs = ?a # [?a + 1..?a + ?L - 1]" using assms(5) by (simp add: upto_rec1)
    have s1: "comets_led line ?a (?L - 1, comet_base st l) = Inr (?L - 1 - 1, comet_base st ?l1)"
      using assms(1-3) assms(4) assms(6) by (rule comets_led_eq)
    obtain l2 where l2: "for_each (comets_led line) [?a + 1..?a + ?L - 1] (?L - 1 - 1, comet_base st ?l1)
               = Inr (?L - 1 - 1 - int (length [?a + 1..?a + ?L - 1]), comet_base st l2)"
       "\<forall>k. k \<notin> (\<lambda>x. nat (?idx x)) ` set [?a + 1..?a + ?L - 1] \<longrightarrow> l2 ! k = ?l1 ! k"
      using comets_inner [OF assms(1-3) nn, of "?a + 1" ?l1 "?a + ?L - 1" "?L - 1 - 1"] assms(6) by auto
    have "for_each (comets_led line) ?xs (?L - 1, comet_base st l)
        = Inr (?L - 1 - 1 - int (length [?a + 1..?a + ?L - 1]), comet_base st l2)"
      by (subst split) (simp only: for_each.simps s1 bindE_Inr l2(1))
    then have eq: "l' = l2" using l'(1)
      by (metis Inr_inject leds_comet_base snd_conv)
    have notin: "?idx ?a \<notin> ?idx ` set [?a + 1..?a + ?L - 1]"
      using assms(7) unfolding comet_positions_def split by simp
    have a0: "0 \<le> ?idx ?a" using rng [of ?a] assms(4) by simp
    have r0: "\<forall>x \<in> set [?a + 1..?a + ?L - 1]. 0 \<le> ?idx x" using rng assms(4) by simp
    have "nat (?idx ?a) \<notin> (\<lambda>x. nat (?idx x)) ` set [?a + 1..?a + ?L - 1]"
    proof
      assume "nat (?idx ?a) \<in> (\<lambda>x. nat (?idx x)) ` set [?a + 1..?a + ?L - 1]"
      then obtain x where x: "x \<in> set [?a + 1..?a + ?L - 1]" "nat (?idx ?a) = nat (?idx x)" by blast
      have "0 \<le> ?idx x" using r0 x(1) by blast
      then have "?idx ?a = ?idx x" using x(2) a0 by (simp add: eq_nat_nat_iff)
      then show False using notin x(1) by blast
    qed
    then have "l2 ! nat (?idx ?a) = ?l1 ! nat (?idx ?a)" using l2(2) by blast
    moreover have "nat (?idx ?a) < length l" using rng [of ?a] assms(4,6) by simp
    ultimately show ?thesis using eq by simp
  qed
  have lead: "l' ! nat (?idx (?a + ?L - 1)) = comet_colour st 0"
  proof -
    have split: "?xs = [?a..?a + ?L - 1 - 1] @ [?a + ?L - 1]"
      using assms(5) upto_rec2 [of ?a "?a + ?L - 1"] by simp
    obtain l1 where l1: "for_each (comets_led line) [?a..?a + ?L - 1 - 1] (?L - 1, comet_base st l)
               = Inr (?L - 1 - int (length [?a..?a + ?L - 1 - 1]), comet_base st l1)"
       "length l1 = length l"
      using comets_inner [OF assms(1-3) nn assms(6), of ?a "?a + ?L - 1 - 1" "?L - 1"] by auto
    have c0: "?L - 1 - int (length [?a..?a + ?L - 1 - 1]) = 0" using assms(5) by simp
    have s: "comets_led line (?a + ?L - 1) (0, comet_base st l1)
           = Inr (0 - 1, comet_base st (l1[nat (?idx (?a + ?L - 1)) := comet_colour st 0]))"
      using assms(1-3) by (rule comets_led_eq) (use assms(4,5,6) l1(2) in simp_all)
    have "for_each (comets_led line) ?xs (?L - 1, comet_base st l)
        = Inr (0 - 1, comet_base st (l1[nat (?idx (?a + ?L - 1)) := comet_colour st 0]))"
      by (subst split) (simp only: for_each_append for_each.simps l1(1) c0 s bindE_Inr)
    then have eq: "l' = l1[nat (?idx (?a + ?L - 1)) := comet_colour st 0]" using l'(1)
      by (metis Inr_inject leds_comet_base snd_conv)
    have "nat (?idx (?a + ?L - 1)) < length l1"
      using rng [of "?a + ?L - 1"] assms(4,5,6) l1(2) by simp
    then show ?thesis using eq by simp
  qed
  show ?thesis
    using l' trail lead by (intro exI [of _ l']) (simp add: comets_line_eq)
qed

lemma comet_render:
  assumes "buffers_allocated st" "1 \<le> numLeds st" "1 \<le> lines st" "1 \<le> ffLedLength st"
    "0 \<le> ffLedStart st" "0 \<le> line" "line < lines st" "comet_separate st line"
  shows "\<exists>t. renderComets st = Inr t
           \<and> leds t ! nat (comet_idx st line (ffLedStart st)) = comet_colour st (ffLedLength st - 1)
           \<and> leds t ! nat (comet_idx st line (ffLedStart st + ffLedLength st - 1)) = comet_colour st 0"
proof -
  let ?a = "ffLedStart st" and ?L = "ffLedLength st"
  let ?jt = "comet_idx st line ?a" and ?jl = "comet_idx st line (?a + ?L - 1)"
  have len: "length (leds st) = nat (numLeds st)" using assms(1) by (simp add: buffers_allocated_def)
  have dist: "distinct (comet_positions st line)" using assms(8) by (simp add: comet_separate_def)
  have other: "set (comet_positions st other) \<inter> set (comet_positions st line) = {}"
    if "0 \<le> other" "other < lines st" "other \<noteq> line" for other
    using assms(8) that by (simp add: comet_separate_def)
  have split: "[0..lines st - 1] = [0..line - 1] @ line # [line + 1..lines st - 1]"
    using assms(6,7) by (intro upto_split3) simp_all
  have pre: "\<forall>x \<in> set [0..line - 1]. 0 \<le> x" and post: "\<forall>x \<in> set [line + 1..lines st - 1]. 0 \<le> x"
    using assms(6) by simp_all
  obtain l1 where l1: "for_each comets_line [0..line - 1] (comet_base st (leds st)) = Inr (comet_base st l1)"
      "length l1 = length (leds st)"
    using comets_lines_untouched [OF assms(2,3) pre assms(5) len] by blast
  have len1: "length l1 = nat (numLeds st)" using l1(2) len by simp
  obtain l2 where l2: "comets_line line (comet_base st l1) = Inr (comet_base st l2)"
      "length l2 = length l1"
      "l2 ! nat ?jt = comet_colour st (?L - 1)" "l2 ! nat ?jl = comet_colour st 0"
    using comets_line_paints [OF assms(2,3,6,5,4) len1 dist] by blast
  have len2: "length l2 = nat (numLeds st)" using l2(2) len1 by simp
  obtain l3 where l3: "for_each comets_line [line + 1..lines st - 1] (comet_base st l2) = Inr (comet_base st l3)"
      "\<forall>j. 0 \<le> j \<and> (\<forall>x \<in> set [line + 1..lines st - 1]. j \<notin> set (comet_positions st x))
            \<longrightarrow> l3 ! nat j = l2 ! nat j"
    using comets_lines_untouched [OF assms(2,3) post assms(5) len2] by blast
  have inpos: "?jt \<in> set (comet_positions st line)" "?jl \<in> set (comet_positions st line)"
    using assms(4) by (simp_all add: comet_positions_def)
  have nn: "0 \<le> ?jt" "0 \<le> ?jl"
    using comet_idx_range [OF assms(2,3,6)] assms(4,5) by simp_all
  have free: "\<forall>x \<in> set [line + 1..lines st - 1]. j \<notin> set (comet_positions st x)"
    if "j \<in> set (comet_positions st line)" for j
  proof
    fix x assume "x \<in> set [line + 1..lines st - 1]"
    then have "0 \<le> x" "x < lines st" "x \<noteq> line" using assms(6) by simp_all
    then show "j \<notin> set (comet_positions st x)" using other [of x] that by blast
  qed
  have t: "l3 ! nat ?jt = l2 ! nat ?jt" "l3 ! nat ?jl = l2 ! nat ?jl"
    using l3(2) nn free inpos by blast+
  have base: "st\<lparr>lineOffset := numLeds st sdiv lines st\<rparr> = comet_base st (leds st)"
    by (simp add: comet_base_def)
  have "renderComets st = for_each comets_line [0..lines st - 1] (comet_base st (leds st))"
    using assms(3,4) by (simp add: renderComets_def Let_def base [symmetric])
  also have "\<dots> = Inr (comet_base st l3)"
    by (subst split) (simp only: for_each_append for_each.simps l1(1) l2(1) l3(1) bindE_Inr)
  finally show ?thesis using t l2(3,4) by simp
qed

lemma comet_values:
  assumes "buffers_allocated st" "1 \<le> numLeds st" "1 \<le> lines st" "1 \<le> ffLedLength st"
    "0 \<le> ffLedStart st" "0 \<le> ffBright st" "ffBright st \<le> 255"
    "0 \<le> line" "line < lines st" "comet_separate st line"
  shows "comet_trailing_v st line = Inr (ffBright st div ffLedLength st)
       \<and> comet_leading_v st line = Inr (ffBright st)"
proof -
  let ?L = "ffLedLength st" and ?b = "ffBright st"
  obtain t where t: "renderComets st = Inr t"
      "leds t ! nat (comet_idx st line (ffLedStart st)) = comet_colour st (?L - 1)"
      "leds t ! nat (comet_idx st line (ffLedStart st + ?L - 1)) = comet_colour st 0"
    using comet_render [OF assms(1-5,8-10)] by blast
  have "(?b * (?L - (?L - 1))) sdiv ?L = ?b div ?L"
    using assms(4,6) by (simp add: sdiv_nonneg_eq)
  moreover have "0 \<le> ?b div ?L" "?b div ?L \<le> 255"
  proof -
    show "0 \<le> ?b div ?L" using assms(4,6) by (simp add: pos_imp_zdiv_nonneg_iff)
    have "?b div ?L \<le> ?b div 1" using assms(4,6) by (intro zdiv_mono2) simp_all
    then show "?b div ?L \<le> 255" using assms(7) by simp
  qed
  ultimately have v1: "uint (hsv_v (comet_colour st (?L - 1))) = ?b div ?L"
    by (simp add: comet_colour_def uint_u8)
  have "(?b * (?L - 0)) sdiv ?L = ?b"
    using assms(4,6) by (simp add: sdiv_nonneg_eq)
  then have v2: "uint (hsv_v (comet_colour st 0)) = ?b"
    using assms(6,7) by (simp add: comet_colour_def uint_u8)
  show ?thesis using t v1 v2 by (simp add: comet_trailing_v_def comet_leading_v_def)
qed

lemmas example_defs = three_comets_def dark_comet_def wrapped_comet_def handleControlChange_def initialState_def

lemma three_comets_fields:
  "numLeds three_comets = 108" "lines three_comets = 3" "ffLedLength three_comets = 4"
  "ffLedStart three_comets = 0" "ffBright three_comets = 200"
  "length (leds three_comets) = 108" "length (background three_comets) = 108"
  by (simp_all add: example_defs)

lemma three_comets_separate: "comet_separate three_comets 1"
  unfolding comet_separate_def comet_positions_def comet_idx_def three_comets_fields
  by (simp add: upto_rec1 signed_modulo_int_def signed_divide_int_def)

text \<open>
  Claim C3, as amended. Let \<open>lines \<ge> 1\<close>, \<open>ffLedLength = L \<ge> 1\<close>, \<open>ffBright\<close> in
  0..255, and let a line be painted on \<open>L\<close> different LEDs that no other line paints. Then
  the brightness rendered at the trailing LED of that line is \<open>ffBright * 1 / L\<close> (integer
  division), the brightness at its leading LED is \<open>ffBright\<close>, and the trailing one is
  strictly less when \<open>L > 1\<close> and \<open>ffBright > 0\<close>.
\<close>

theorem comet_brightness:
  assumes "buffers_allocated st" "1 \<le> numLeds st" "1 \<le> lines st" "1 \<le> ffLedLength st"
    "0 \<le> ffLedStart st" "0 \<le> ffBright st" "ffBright st \<le> 255"
    "0 \<le> line" "line < lines st" "comet_separate st line"
  shows "comet_trailing_v st line = Inr ((ffBright st * 1) sdiv ffLedLength st)
       \<and> comet_leading_v st line = Inr (ffBright st)
       \<and> (1 < ffLedLength st \<and> 0 < ffBright st \<longrightarrow>
            (ffBright st * 1) sdiv ffLedLength st < ffBright st)"
proof -
  have "(ffBright st * 1) sdiv ffLedLength st = ffBright st div ffLedLength st"
    using assms(4,6) by (simp add: sdiv_nonneg_eq)
  moreover have "ffBright st div ffLedLength st < ffBright st"
    if "1 < ffLedLength st" "0 < ffBright st"
    using that by (simp add: int_div_less_self)
  ultimately show ?thesis using comet_values [OF assms] by simp
qed

theorem comet_brightness_witness:
  "buffers_allocated three_comets \<and> 1 \<le> numLeds three_comets \<and> 1 \<le> lines three_comets
   \<and> 1 < ffLedLength three_comets \<and> 0 \<le> ffLedStart three_comets \<and> 0 < ffBright three_comets
   \<and> ffBright three_comets \<le> 255 \<and> (0::int) \<le> 1 \<and> 1 < lines three_comets
   \<and> comet_separate three_comets 1
   \<and> comet_trailing_v three_comets 1 = Inr 50 \<and> comet_leading_v three_comets 1 = Inr 200"
proof -
  have b: "buffers_allocated three_comets"
    by (simp add: buffers_allocated_def three_comets_fields)
  show ?thesis
    using comet_brightness [of three_comets 1] b three_comets_separate
    by (simp add: three_comets_fields)
qed

text \<open>
  The claim as first stated fails in two ways. With \<open>ffBright = 0\<close> and \<open>L = 2\<close> the
  trailing and the leading LED both render 0, so the trailing one is not strictly less. With
  one line of \<open>L = 3\<close> on a strip of 2 LEDs no other line overlaps, yet the line wraps
  onto its own trailing LED, which renders 200 and not \<open>200 * 1 / 3 = 66\<close>.
\<close>

theorem comet_counterexample:
  "lines dark_comet = 1 \<and> ffLedLength dark_comet = 2 \<and> comet_separate dark_comet 0
   \<and> comet_trailing_v dark_comet 0 = Inr 0 \<and> comet_leading_v dark_comet 0 = Inr 0
   \<and> lines wrapped_comet = 1 \<and> ffLedLength wrapped_comet = 3 \<and> ffBright wrapped_comet = 200
   \<and> comet_trailing_v wrapped_comet 0 = Inr 200 \<and> (200 * 1) sdiv 3 = (66::int)"
proof -
  have f: "numLeds dark_comet = 108" "lines dark_comet = 1" "ffLedLength dark_comet = 2"
    "ffLedStart dark_comet = 0" "ffBright dark_comet = 0"
    "length (leds dark_comet) = 108" "length (background dark_comet) = 108"
    by (simp_all add: example_defs)
  have b: "buffers_allocated dark_comet" by (simp add: buffers_allocated_def f)
  have s: "comet_separate dark_comet 0"
    unfolding comet_separate_def comet_positions_def comet_idx_def f
    by (simp add: upto_rec1 signed_modulo_int_def signed_divide_int_def)
  have d: "comet_trailing_v dark_comet 0 = Inr 0 \<and> comet_leading_v dark_comet 0 = Inr 0"
    using comet_values [of dark_comet 0] b s by (simp add: f)
  have w: "comet_trailing_v wrapped_comet 0 = Inr 200"
    by code_simp
  have g: "lines wrapped_comet = 1" "ffLedLength wrapped_comet = 3" "ffBright wrapped_comet = 200"
    by (simp_all add: example_defs)
  show ?thesis using f(2,3) s d w g by simp
qed

section \<open>Ocean Waves\<close>

text \<open>
  Claim C1. The claim is that every index \<open>tMiddle + p\<close> and \<open>tMiddle - p\<close> painted by
  Ocean Waves lies in 24..71. On a 108-LED engine with the default \<open>pan = 64\<close> and
  \<open>ffLedLength = 127\<close> the centre is 53 and the lower clamp sets the amplitude to 29; the
  upper bound is not looked at again, and \<open>p = 28\<close> paints LED 81: after \<open>render\<close> it holds
  the wave's colour with brightness 6, where the background has brightness 0.
\<close>

theorem ocean_waves_leaves_band:
  "wave_tMiddle high_wave = 53 \<and> ocean_amp high_wave = 29
   \<and> map_sum id (\<lambda>t. (leds t ! 81, background t ! 81)) (render uint high_wave)
       = Inr (\<lparr>hsv_h = 0, hsv_s = 200, hsv_v = 6\<rparr>, \<lparr>hsv_h = 0, hsv_s = 200, hsv_v = 0\<rparr>)"
proof -
  have "wave_tMiddle high_wave = 53 \<and> ocean_amp high_wave = 29"
    by (simp add: high_wave_def handleControlChange_def initialState_def wave_tMiddle_def
          ocean_amp_def Let_def)
  moreover have "map_sum id (\<lambda>t. (leds t ! 81, background t ! 81)) (render uint high_wave)
       = Inr (\<lparr>hsv_h = 0, hsv_s = 200, hsv_v = 6\<rparr>, \<lparr>hsv_h = 0, hsv_s = 200, hsv_v = 0\<rparr>)"
    by code_simp
  ultimately show ?thesis by simp
qed

end
